theory Spec2Isabelle
  imports Main "HOL-Library.AList" "HOL-Library.Multiset" "HOL-Library.Sublist"
begin

section \<open>Values shared by the repositories and services\<close>

text \<open>
  A session or document identifier is a UUID.  The code only ever compares identifiers
  and prints them with \<open>str\<close>, so a UUID is represented by its canonical text;
  \<open>str_uuid\<close> is Python's \<open>str(uuid)\<close>, which is injective.
\<close>

datatype uuid = UUID string

fun str_uuid :: "uuid \<Rightarrow> string" where
  "str_uuid (UUID s) = s"

text \<open>
  Exceptions as values.  \<open>ValueError\<close> and \<open>HTTPException\<close> are the two
  exceptions the repository raises itself; \<open>ExternalError\<close> stands for any exception
  raised by a collaborator outside the repository (the SQL session, the vector backend,
  the file loaders, the language model), tagged with the call that raised it.
\<close>

datatype error =
    ValueError string
  | HTTPException nat string
  | ExternalError string

text \<open>
  A LangChain \<open>Document\<close>: text plus a metadata dictionary.  The dictionary is an
  association list in insertion order; \<open>map_of\<close> is the lookup and
  \<open>AList.update\<close> is the assignment \<open>d[k] = v\<close>.
\<close>

record lc_document =
  page_content :: string
  metadata :: "(string \<times> string) list"

section \<open>The vector backend\<close>

text \<open>
  Modelled from the spec: the vector index and its embedding provider (the PGVector
  collection of an external library, constructed in \<open>VectorStoreRepository.__init__\<close>).
  The collection is the list of stored entries in insertion order.  A metadata filter
  selects the entries whose metadata holds every pair of the filter; the search ranks the
  selected entries by their distance to the query (the embedding and the cosine distance
  are the parameter \<open>dist\<close>), most similar first, ties in insertion order, and keeps at
  most \<open>k\<close> of them.  Each call may raise: the flag \<open>ok\<close> says whether this call
  goes through.
\<close>

definition matches_filter :: "(string \<times> string) list \<Rightarrow> lc_document \<Rightarrow> bool" where
  "matches_filter flt d = list_all (\<lambda>(key, v). map_of (metadata d) key = Some v) flt"

definition aadd_documents ::
  "bool \<Rightarrow> lc_document list \<Rightarrow> lc_document list \<Rightarrow> error + lc_document list" where
  "aadd_documents ok store docs =
     (if ok then Inr (store @ docs) else Inl (ExternalError ''aadd_documents''))"

definition asimilarity_search ::
  "(string \<Rightarrow> string \<Rightarrow> 'd::linorder) \<Rightarrow> bool \<Rightarrow> lc_document list \<Rightarrow> string \<Rightarrow> int \<Rightarrow>
   (string \<times> string) list \<Rightarrow> error + lc_document list" where
  "asimilarity_search dist ok store query k flt =
     (if ok
      then Inr (take (nat k)
                  (sort_key (\<lambda>d. dist query (page_content d)) (filter (matches_filter flt) store)))
      else Inl (ExternalError ''asimilarity_search''))"

section \<open>VectorStoreRepository (app/repositories/vector_store.py)\<close>

text \<open>
  \<open>add_documents\<close>: the validation loop raises at the first document whose metadata has
  no key \<open>session_id\<close>; only after the whole loop has passed is the batch handed to the
  backend.  The result is the new collection, or the exception; on an exception the caller
  keeps the collection it had.  (The \<open>ValueError\<close> text of the source ends with the
  printed metadata, which is left out here.)
\<close>

definition add_documents ::
  "bool \<Rightarrow> lc_document list \<Rightarrow> lc_document list \<Rightarrow> error + lc_document list" where
  "add_documents ok store documents =
     (case find (\<lambda>doc. map_of (metadata doc) ''session_id'' = None) documents of
        Some doc \<Rightarrow> Inl (ValueError ''session_id required in document metadata.'')
      | None \<Rightarrow> aadd_documents ok store documents)"

text \<open>
  \<open>similarity_search\<close>: the filter is built from the session id, the backend is called
  inside \<open>try\<close>, and \<open>except Exception\<close> returns the empty list.
\<close>

definition similarity_search ::
  "(string \<Rightarrow> string \<Rightarrow> 'd::linorder) \<Rightarrow> bool \<Rightarrow> lc_document list \<Rightarrow> string \<Rightarrow> uuid \<Rightarrow> int \<Rightarrow>
   error + lc_document list" where
  "similarity_search dist ok store query session_id k =
     (let filter_dict = [(''session_id'', str_uuid session_id)]
      in case asimilarity_search dist ok store query k filter_dict of
           Inr results \<Rightarrow> Inr results
         | Inl e \<Rightarrow> Inr [])"

text \<open>The entries of the collection that carry a given session id.\<close>

definition session_entries :: "uuid \<Rightarrow> lc_document list \<Rightarrow> lc_document list" where
  "session_entries sid store =
     filter (\<lambda>d. map_of (metadata d) ''session_id'' = Some (str_uuid sid)) store"

section \<open>DocumentRepository (app/repositories/document_repository.py)\<close>

text \<open>
  A row of the table \<open>documents\<close> (app/models/document.py).  The table is the list of
  its rows together with a history variable \<open>status_log\<close>: every status value written
  to a row, oldest first.  The log has no influence on any operation; it is what an
  observer polling the row would have seen.
\<close>

record document =
  doc_id :: uuid
  doc_session_id :: uuid
  doc_filename :: string
  doc_mime_type :: string
  doc_file_size :: nat
  doc_status :: string

record document_table =
  rows :: "document list"
  status_log :: "(uuid \<times> string) list"

definition valid_status :: "string list" where
  "valid_status = [''pending'', ''processing'', ''indexed'', ''failed'']"

definition status_sequence :: "document_table \<Rightarrow> uuid \<Rightarrow> string list" where
  "status_sequence tbl document_id =
     map snd (filter (\<lambda>(i, s). i = document_id) (status_log tbl))"

text \<open>
  \<open>create_document\<close> inserts a row with status \<open>pending\<close>.  The primary key is the
  fresh UUID \<open>new_id\<close> (the column default \<open>uuid.uuid4\<close>); the flush raises when the
  session is down (\<open>ok\<close> false) or the key is taken.
\<close>

definition create_document ::
  "bool \<Rightarrow> uuid \<Rightarrow> document_table \<Rightarrow> uuid \<Rightarrow> string \<Rightarrow> string \<Rightarrow> nat \<Rightarrow>
   error + (document \<times> document_table)" where
  "create_document ok new_id tbl session_id filename mime_type file_size =
     (let doc = \<lparr>doc_id = new_id, doc_session_id = session_id, doc_filename = filename,
                 doc_mime_type = mime_type, doc_file_size = file_size, doc_status = ''pending''\<rparr>
      in if ok \<and> new_id \<notin> set (map doc_id (rows tbl))
         then Inr (doc, tbl\<lparr>rows := rows tbl @ [doc],
                            status_log := status_log tbl @ [(new_id, ''pending'')]\<rparr>)
         else Inl (ExternalError ''create_document''))"

text \<open>
  \<open>update_status\<close> is one SQL \<open>UPDATE ... WHERE id = document_id\<close>: it writes the
  given status whatever the current one is.  It raises when the session is down or the
  check constraint \<open>valid_status\<close> of the table rejects the value.
\<close>

definition update_status ::
  "bool \<Rightarrow> document_table \<Rightarrow> uuid \<Rightarrow> string \<Rightarrow> error + document_table" where
  "update_status ok tbl document_id new_status =
     (if ok \<and> new_status \<in> set valid_status
      then Inr (tbl\<lparr>rows := map (\<lambda>r. if doc_id r = document_id
                                       then r\<lparr>doc_status := new_status\<rparr> else r) (rows tbl),
                     status_log := status_log tbl @
                        map (\<lambda>r. (doc_id r, new_status))
                          (filter (\<lambda>r. doc_id r = document_id) (rows tbl))\<rparr>)
      else Inl (ExternalError ''update_status''))"

text \<open>The primary key at work: exactly one row has the given id.\<close>

definition single_row :: "document_table \<Rightarrow> uuid \<Rightarrow> bool" where
  "single_row tbl d = (length (filter (\<lambda>r. doc_id r = d) (rows tbl)) = 1)"

section \<open>DocumentService (app/services/document_service.py)\<close>

text \<open>
  The collaborators of one ingestion run.  \<open>ingest_ok\<close> says, for every step that calls
  outside the service, whether the call returns or raises; \<open>load\<close> is what the file
  loader reads from the bytes, \<open>split_documents\<close> is the text splitter (both from an
  external library).
\<close>

datatype ingest_step =
  CreateDocument | MarkProcessing | WriteTempFile | LoadFile | SplitDocuments |
  AddDocuments | MarkIndexed | MarkFailed

datatype loader = PyPDFLoader | TextLoader

record ingest_env =
  ingest_ok :: "ingest_step \<Rightarrow> bool"
  new_document_id :: uuid
  load :: "loader \<Rightarrow> string \<Rightarrow> lc_document list"
  split_documents :: "lc_document list \<Rightarrow> lc_document list"

definition choose_loader :: "string \<Rightarrow> error + loader" where
  "choose_loader mime_type =
     (if mime_type = ''application/pdf'' then Inr PyPDFLoader
      else if mime_type \<in> set [''text/plain'', ''text/markdown''] then Inr TextLoader
      else Inl (ValueError (''Unsupported file type: '' @ mime_type)))"

text \<open>\<open>chunk.metadata.update({...})\<close>: the three keys are assigned in this order.\<close>

definition stamp :: "uuid \<Rightarrow> uuid \<Rightarrow> string \<Rightarrow> lc_document \<Rightarrow> lc_document" where
  "stamp session_id document_id filename chunk =
     chunk\<lparr>metadata :=
       AList.update ''filename'' filename
         (AList.update ''document_id'' (str_uuid document_id)
           (AList.update ''session_id'' (str_uuid session_id) (metadata chunk)))\<rparr>"

text \<open>
  The body of the \<open>try\<close> block after the document record exists (steps 2 to 8 of the
  source).  The result carries the table and the collection as they are when the block
  is left, by \<open>return\<close> or by an exception.
\<close>

definition ingest_steps ::
  "ingest_env \<Rightarrow> document_table \<Rightarrow> lc_document list \<Rightarrow> document \<Rightarrow> string \<Rightarrow> string \<Rightarrow> uuid \<Rightarrow>
   string \<Rightarrow> (error + uuid) \<times> document_table \<times> lc_document list" where
  "ingest_steps env tbl store doc file_content filename session_id mime_type =
     (case update_status (ingest_ok env MarkProcessing) tbl (doc_id doc) ''processing'' of
        Inl e \<Rightarrow> (Inl e, tbl, store)
      | Inr tbl1 \<Rightarrow>
          if \<not> ingest_ok env WriteTempFile
          then (Inl (ExternalError ''NamedTemporaryFile''), tbl1, store)
          else
            (case choose_loader mime_type of
               Inl e \<Rightarrow> (Inl e, tbl1, store)
             | Inr ldr \<Rightarrow>
                 if \<not> ingest_ok env LoadFile then (Inl (ExternalError ''load''), tbl1, store)
                 else if \<not> ingest_ok env SplitDocuments
                 then (Inl (ExternalError ''split_documents''), tbl1, store)
                 else
                   (let documents = load env ldr file_content;
                        chunks = split_documents env documents;
                        stamped = map (stamp session_id (doc_id doc) filename) chunks
                    in case add_documents (ingest_ok env AddDocuments) store stamped of
                         Inl e \<Rightarrow> (Inl e, tbl1, store)
                       | Inr store1 \<Rightarrow>
                           (case update_status (ingest_ok env MarkIndexed) tbl1 (doc_id doc)
                                   ''indexed'' of
                              Inl e \<Rightarrow> (Inl e, tbl1, store1)
                            | Inr tbl2 \<Rightarrow> (Inr (doc_id doc), tbl2, store1)))))"

text \<open>
  \<open>ingest_document\<close>: when \<open>create_document\<close> raises, \<open>document\<close> is still
  \<open>None\<close> and the handler only re-raises; otherwise the handler writes \<open>failed\<close> and
  re-raises (or raises what that write raised).  The temporary file of the source is
  deleted in \<open>finally\<close> on every path and a failed deletion is only logged, so it leaves
  no trace in the result.
\<close>

definition ingest_document ::
  "ingest_env \<Rightarrow> document_table \<Rightarrow> lc_document list \<Rightarrow> string \<Rightarrow> string \<Rightarrow> uuid \<Rightarrow> string \<Rightarrow>
   (error + uuid) \<times> document_table \<times> lc_document list" where
  "ingest_document env tbl store file_content filename session_id mime_type =
     (case create_document (ingest_ok env CreateDocument) (new_document_id env) tbl
             session_id filename mime_type (length file_content) of
        Inl e \<Rightarrow> (Inl e, tbl, store)
      | Inr (doc, tbl0) \<Rightarrow>
          (case ingest_steps env tbl0 store doc file_content filename session_id mime_type of
             (Inr document_id, tbl1, store1) \<Rightarrow> (Inr document_id, tbl1, store1)
           | (Inl e, tbl1, store1) \<Rightarrow>
               (case update_status (ingest_ok env MarkFailed) tbl1 (doc_id doc) ''failed'' of
                  Inl e' \<Rightarrow> (Inl e', tbl1, store1)
                | Inr tbl2 \<Rightarrow> (Inl e, tbl2, store1))))"

section \<open>The upload route (app/api/routes/upload.py)\<close>

record document_response =
  resp_message :: string
  resp_filename :: string
  resp_session_id :: uuid

definition allowed_types :: "string list" where
  "allowed_types = [''application/pdf'', ''text/plain'']"

text \<open>
  \<open>upload_document\<close> rejects a content type outside \<open>allowed_types\<close> with status 400
  before anything else happens; otherwise it schedules \<open>ingest_document\<close> as a
  background task and answers 202.  The task is run to its end here; what it raises does
  not reach the response.
\<close>

definition upload_document ::
  "ingest_env \<Rightarrow> document_table \<Rightarrow> lc_document list \<Rightarrow> uuid \<Rightarrow> string \<Rightarrow> string \<Rightarrow> string \<Rightarrow>
   (error + document_response) \<times> document_table \<times> lc_document list" where
  "upload_document env tbl store session_id filename content_type content =
     (if content_type \<notin> set allowed_types
      then (Inl (HTTPException 400
                   (''Unsupported file type: '' @ content_type @
                    ''. Allowed: ['application/pdf', 'text/plain']'')), tbl, store)
      else
        (case ingest_document env tbl store content filename session_id content_type of
           (r, tbl1, store1) \<Rightarrow>
             (Inr \<lparr>resp_message = ''Document upload accepted. Processing in background.'',
                   resp_filename = filename, resp_session_id = session_id\<rparr>, tbl1, store1)))"

section \<open>ChatRepository (app/repositories/chat_repository.py)\<close>

text \<open>
  A row of the table \<open>chat_messages\<close> (app/models/message.py); the table is the list
  of its rows in insertion order.  \<open>created_at\<close> is the server's clock reading at the
  insert, a parameter of \<open>add_message\<close>.
\<close>

record chat_message =
  msg_session_id :: uuid
  msg_role :: string
  msg_content :: string
  msg_created_at :: nat

text \<open>The dictionary \<open>get_history\<close> returns for one message.\<close>

record history_entry =
  entry_role :: string
  entry_content :: string
  entry_created_at :: nat

definition valid_role :: "string list" where
  "valid_role = [''user'', ''assistant'', ''system'']"

text \<open>
  \<open>add_message\<close> inserts one row and returns it.  The flush raises when the session is
  down (\<open>ok\<close> false) or the check constraint \<open>valid_role\<close> rejects the role; then
  nothing is stored.
\<close>

definition add_message ::
  "bool \<Rightarrow> nat \<Rightarrow> chat_message list \<Rightarrow> uuid \<Rightarrow> string \<Rightarrow> string \<Rightarrow>
   error + (chat_message \<times> chat_message list)" where
  "add_message ok now msgs session_id role content =
     (let message = \<lparr>msg_session_id = session_id, msg_role = role, msg_content = content,
                     msg_created_at = now\<rparr>
      in if ok \<and> role \<in> set valid_role
         then Inr (message, msgs @ [message])
         else Inl (ExternalError ''add_message''))"

text \<open>
  The statement of \<open>get_history\<close>: the rows of the session, ordered by \<open>created_at\<close>
  descending, at most \<open>n\<close> of them.  SQL leaves the order of rows with equal
  \<open>created_at\<close> open; here the later insert comes first.
\<close>

definition select_recent :: "chat_message list \<Rightarrow> uuid \<Rightarrow> nat \<Rightarrow> chat_message list" where
  "select_recent msgs session_id n =
     take n (rev (sort_key msg_created_at (filter (\<lambda>m. msg_session_id m = session_id) msgs)))"

definition to_entry :: "chat_message \<Rightarrow> history_entry" where
  "to_entry msg = \<lparr>entry_role = msg_role msg, entry_content = msg_content msg,
                    entry_created_at = msg_created_at msg\<rparr>"

text \<open>
  \<open>get_history\<close> executes the statement, reverses the rows and turns each into a
  dictionary.  The execution raises when the session is down; a negative \<open>limit\<close> is
  rejected by the database.
\<close>

definition get_history ::
  "bool \<Rightarrow> chat_message list \<Rightarrow> uuid \<Rightarrow> int \<Rightarrow> error + history_entry list" where
  "get_history ok msgs session_id limit =
     (if ok \<and> 0 \<le> limit
      then Inr (map to_entry (rev (select_recent msgs session_id (nat limit))))
      else Inl (ExternalError ''get_history''))"

text \<open>The row \<open>add_message\<close> writes.\<close>

definition message_row :: "uuid \<Rightarrow> string \<Rightarrow> string \<Rightarrow> nat \<Rightarrow> chat_message" where
  "message_row sid role content now =
     \<lparr>msg_session_id = sid, msg_role = role, msg_content = content, msg_created_at = now\<rparr>"

text \<open>All messages of a session, in insertion order.\<close>

definition session_messages :: "chat_message list \<Rightarrow> uuid \<Rightarrow> chat_message list" where
  "session_messages msgs session_id = filter (\<lambda>m. msg_session_id m = session_id) msgs"

section \<open>ChatService (app/services/chat_service.py)\<close>

datatype lc_message = SystemMessage string | HumanMessage string | AIMessage string

text \<open>
  The collaborators of one chat request.  \<open>chat_ok\<close> says, for every step that calls
  outside the service, whether the call returns or raises; \<open>clock\<close> is the server time
  at a step; \<open>llm\<close> is the completion the language model gives for a request when its
  call returns; \<open>distance\<close> is the ranking of the vector backend.
\<close>

datatype chat_step =
  SaveUserMessage | GetHistory | SimilaritySearch | Generate | SaveAssistantMessage |
  FallbackGenerate

record 'd chat_env =
  chat_ok :: "chat_step \<Rightarrow> bool"
  clock :: "chat_step \<Rightarrow> nat"
  llm :: "lc_message list \<Rightarrow> string"
  distance :: "string \<Rightarrow> string \<Rightarrow> 'd"

definition ainvoke :: "'d chat_env \<Rightarrow> chat_step \<Rightarrow> lc_message list \<Rightarrow> error + string" where
  "ainvoke env step messages =
     (if chat_ok env step then Inr (llm env messages) else Inl (ExternalError ''ainvoke''))"

text \<open>Python's \<open>sep.join(xs)\<close>.\<close>

fun join :: "string \<Rightarrow> string list \<Rightarrow> string" where
  "join sep [] = []"
| "join sep [x] = x"
| "join sep (x # y # ys) = x @ sep @ join sep (y # ys)"

definition context_system_content :: "string \<Rightarrow> string" where
  "context_system_content context =
     ''You are a helpful AI assistant. Use the following context from uploaded documents to answer the user's question accurately.\<newline>\<newline>Context from documents:\<newline>''
     @ context @
     ''\<newline>\<newline>Instructions:\<newline>- Answer based on the provided context when relevant\<newline>- If the context doesn't contain the answer, say so\<newline>- Be concise and helpful\<newline>- Maintain conversation continuity''"

definition plain_system_content :: string where
  "plain_system_content =
     ''You are a helpful AI assistant. Answer the user's questions concisely and accurately.''"

text \<open>
  The loop over \<open>history[-6:]\<close>: a \<open>user\<close> entry becomes a \<open>HumanMessage\<close>, an
  \<open>assistant\<close> entry an \<open>AIMessage\<close>, and an entry with any other role adds nothing.
\<close>

definition history_messages :: "history_entry list \<Rightarrow> lc_message list" where
  "history_messages history =
     concat (map (\<lambda>msg. if entry_role msg = ''user'' then [HumanMessage (entry_content msg)]
                         else if entry_role msg = ''assistant'' then [AIMessage (entry_content msg)]
                         else [])
               (drop (length history - 6) history))"

definition build_messages :: "string \<Rightarrow> string \<Rightarrow> history_entry list \<Rightarrow> lc_message list" where
  "build_messages user_message context history =
     (let system_content = (if context \<noteq> [] then context_system_content context
                            else plain_system_content)
      in [SystemMessage system_content] @ history_messages history @ [HumanMessage user_message])"

definition apology :: string where
  "apology = ''I apologize, but I'm having trouble processing your request right now. Please try again later.''"

definition fallback_response :: "'d chat_env \<Rightarrow> string \<Rightarrow> error + string" where
  "fallback_response env message =
     (case ainvoke env FallbackGenerate
             [SystemMessage ''You are a helpful assistant.'', HumanMessage message] of
        Inr response \<Rightarrow> Inr response
      | Inl e \<Rightarrow> Inr apology)"

text \<open>
  Steps 1 to 5 of \<open>generate_response\<close>: save the user message, read the history, search
  the session's entries, join the context and build the request for the model.  The
  result carries the message table as it is when the steps are left.
\<close>

definition rag_messages ::
  "('d::linorder) chat_env \<Rightarrow> chat_message list \<Rightarrow> lc_document list \<Rightarrow> uuid \<Rightarrow> string \<Rightarrow>
   (error + lc_message list) \<times> chat_message list" where
  "rag_messages env msgs store session_id user_message =
     (case add_message (chat_ok env SaveUserMessage) (clock env SaveUserMessage) msgs
             session_id ''user'' user_message of
        Inl e \<Rightarrow> (Inl e, msgs)
      | Inr (saved, msgs1) \<Rightarrow>
          (case get_history (chat_ok env GetHistory) msgs1 session_id 10 of
             Inl e \<Rightarrow> (Inl e, msgs1)
           | Inr history \<Rightarrow>
               (case similarity_search (distance env) (chat_ok env SimilaritySearch) store
                       user_message session_id 4 of
                  Inl e \<Rightarrow> (Inl e, msgs1)
                | Inr relevant_docs \<Rightarrow>
                    (let context = (if relevant_docs \<noteq> []
                                    then join ''\<newline>\<newline>'' (map page_content relevant_docs)
                                    else [])
                     in (Inr (build_messages user_message context history), msgs1)))))"

text \<open>Steps 6 and 7: call the model, save its answer, return it.\<close>

definition rag_response ::
  "('d::linorder) chat_env \<Rightarrow> chat_message list \<Rightarrow> lc_document list \<Rightarrow> uuid \<Rightarrow> string \<Rightarrow>
   (error + string) \<times> chat_message list" where
  "rag_response env msgs store session_id user_message =
     (case rag_messages env msgs store session_id user_message of
        (Inl e, msgs1) \<Rightarrow> (Inl e, msgs1)
      | (Inr messages, msgs1) \<Rightarrow>
          (case ainvoke env Generate messages of
             Inl e \<Rightarrow> (Inl e, msgs1)
           | Inr assistant_message \<Rightarrow>
               (case add_message (chat_ok env SaveAssistantMessage)
                       (clock env SaveAssistantMessage) msgs1 session_id ''assistant''
                       assistant_message of
                  Inl e \<Rightarrow> (Inl e, msgs1)
                | Inr (saved, msgs2) \<Rightarrow> (Inr assistant_message, msgs2))))"

text \<open>
  \<open>generate_response\<close>: the seven steps run inside \<open>try\<close>; \<open>except Exception\<close>
  answers with \<open>_fallback_response\<close>.  What was written to the message table before the
  exception stays written.
\<close>

definition generate_response ::
  "('d::linorder) chat_env \<Rightarrow> chat_message list \<Rightarrow> lc_document list \<Rightarrow> uuid \<Rightarrow> string \<Rightarrow>
   (error + string) \<times> chat_message list" where
  "generate_response env msgs store session_id user_message =
     (case rag_response env msgs store session_id user_message of
        (Inr assistant_message, msgs1) \<Rightarrow> (Inr assistant_message, msgs1)
      | (Inl e, msgs1) \<Rightarrow> (fallback_response env user_message, msgs1))"

section \<open>Example data\<close>

text \<open>The two chunks of the isolation scenario, an entry whose session id is the empty
  string, and an entry without the key.\<close>

definition doc_python :: lc_document where
  "doc_python = \<lparr>page_content = ''Python programming'', metadata = [(''session_id'', ''A'')]\<rparr>"

definition doc_javascript :: lc_document where
  "doc_javascript =
     \<lparr>page_content = ''JavaScript programming'', metadata = [(''session_id'', ''B'')]\<rparr>"

definition doc_empty_session :: lc_document where
  "doc_empty_session = \<lparr>page_content = ''text'', metadata = [(''session_id'', '''')]\<rparr>"

definition doc_untagged :: lc_document where
  "doc_untagged = \<lparr>page_content = ''text'', metadata = [(''source'', ''a.txt'')]\<rparr>"

text \<open>An empty document table; collaborators of an ingestion run that all succeed (the
  loader returns the bytes as one page, the splitter keeps each page as one chunk); and the
  same collaborators with the database failing on the update to \<open>processing\<close>.\<close>

definition empty_table :: document_table where
  "empty_table = \<lparr>rows = [], status_log = []\<rparr>"

definition env_ok :: ingest_env where
  "env_ok = \<lparr>ingest_ok = (\<lambda>step. True), new_document_id = UUID ''d1'',
             load = (\<lambda>ldr bytes. [\<lparr>page_content = bytes, metadata = [(''source'', ''tmp'')]\<rparr>]),
             split_documents = (\<lambda>docs. docs)\<rparr>"

definition env_processing_fails :: ingest_env where
  "env_processing_fails = env_ok\<lparr>ingest_ok := (\<lambda>step. step \<noteq> MarkProcessing)\<rparr>"

text \<open>Three messages of session \<open>s\<close> and one of another session.\<close>

definition m1 :: chat_message where
  "m1 = \<lparr>msg_session_id = UUID ''s'', msg_role = ''user'', msg_content = ''one'',
          msg_created_at = 1\<rparr>"

definition m2 :: chat_message where
  "m2 = \<lparr>msg_session_id = UUID ''s'', msg_role = ''assistant'', msg_content = ''two'',
          msg_created_at = 2\<rparr>"

definition m3 :: chat_message where
  "m3 = \<lparr>msg_session_id = UUID ''s'', msg_role = ''user'', msg_content = ''three'',
          msg_created_at = 3\<rparr>"

definition m_other :: chat_message where
  "m_other = \<lparr>msg_session_id = UUID ''t'', msg_role = ''user'', msg_content = ''other'',
               msg_created_at = 4\<rparr>"

text \<open>Collaborators of a chat request: all up, with a model that answers \<open>answer\<close>;
  the vector backend down; the vector backend down and a model whose completion is empty;
  everything down.\<close>

definition chat_env_ok :: "nat chat_env" where
  "chat_env_ok = \<lparr>chat_ok = (\<lambda>step. True), clock = (\<lambda>step. 3), llm = (\<lambda>request. ''answer''),
                   distance = (\<lambda>q t. 0)\<rparr>"

definition chat_env_no_vectors :: "nat chat_env" where
  "chat_env_no_vectors = chat_env_ok\<lparr>chat_ok := (\<lambda>step. step \<noteq> SimilaritySearch)\<rparr>"

definition chat_env_silent :: "nat chat_env" where
  "chat_env_silent = chat_env_ok\<lparr>chat_ok := (\<lambda>step. step \<noteq> SimilaritySearch),
                                  llm := (\<lambda>request. [])\<rparr>"

definition chat_env_down :: "nat chat_env" where
  "chat_env_down = chat_env_ok\<lparr>chat_ok := (\<lambda>step. False)\<rparr>"

section \<open>Properties of the vector store repository\<close>

lemma matches_session_filter:
  "matches_filter [(''session_id'', s)] = (\<lambda>d. map_of (metadata d) ''session_id'' = Some s)"
  by (rule ext) (simp add: matches_filter_def)

lemma similarity_search_results:
  "similarity_search dist ok store query sid k =
     Inr (if ok then take (nat k) (sort_key (\<lambda>d. dist query (page_content d))
                                   (session_entries sid store))
          else [])"
  by (simp add: similarity_search_def asimilarity_search_def matches_session_filter
      session_entries_def)

lemma add_documents_Inr:
  "add_documents ok store documents = Inr store' \<Longrightarrow> store' = store @ documents"
  by (auto simp: add_documents_def aadd_documents_def split: option.splits if_splits)

lemma str_uuid_inj: "str_uuid a = str_uuid b \<longleftrightarrow> a = b"
  by (cases a; cases b) simp

lemma ranked_subset:
  assumes "d \<in> set (take n (sort_key f (session_entries sid store)))"
  shows "d \<in> set store \<and> map_of (metadata d) ''session_id'' = Some (str_uuid sid)"
proof -
  from assms have "d \<in> set (sort_key f (session_entries sid store))" by (rule in_set_takeD)
  then have "d \<in> set (session_entries sid store)" by simp
  then show ?thesis by (simp add: session_entries_def)
qed

lemma session_entries_other:
  assumes "a \<noteq> b" and "\<forall>d \<in> set batch. map_of (metadata d) ''session_id'' = Some (str_uuid a)"
  shows "session_entries b (store @ batch) = session_entries b store"
proof -
  have "filter (\<lambda>d. map_of (metadata d) ''session_id'' = Some (str_uuid b)) batch = []"
    unfolding filter_empty_conv using assms by (simp add: str_uuid_inj)
  then show ?thesis by (simp add: session_entries_def)
qed

lemma find_None_conv: "find P xs = None \<longleftrightarrow> (\<forall>x \<in> set xs. \<not> P x)"
  by (induction xs) auto

text \<open>
  C1 (session isolation).  A search for session \<open>b\<close> always returns a list, and every
  entry of it is an entry of the collection whose metadata carries exactly \<open>b\<close>'s
  session id, hence never the id of another session \<open>a\<close>.  Moreover a batch indexed
  under another session \<open>a\<close> leaves every search result of \<open>b\<close> as it was, for every
  query, every \<open>k\<close>, every ranking and whether or not the backend calls go through.
\<close>

theorem similarity_search_isolation:
  "(\<exists>results. similarity_search dist ok store query b k = Inr results \<and>
      (\<forall>d \<in> set results. d \<in> set store \<and>
          map_of (metadata d) ''session_id'' = Some (str_uuid b) \<and>
          (a \<noteq> b \<longrightarrow> map_of (metadata d) ''session_id'' \<noteq> Some (str_uuid a)))) \<and>
   (a \<noteq> b \<longrightarrow> (\<forall>d \<in> set batch. map_of (metadata d) ''session_id'' = Some (str_uuid a)) \<longrightarrow>
      add_documents ok' store batch = Inr store' \<longrightarrow>
      similarity_search dist ok store' query b k = similarity_search dist ok store query b k)"
proof (intro conjI impI)
  show "\<exists>results. similarity_search dist ok store query b k = Inr results \<and>
      (\<forall>d \<in> set results. d \<in> set store \<and>
          map_of (metadata d) ''session_id'' = Some (str_uuid b) \<and>
          (a \<noteq> b \<longrightarrow> map_of (metadata d) ''session_id'' \<noteq> Some (str_uuid a)))"
  proof (intro exI conjI ballI impI)
    show "similarity_search dist ok store query b k =
        Inr (if ok then take (nat k) (sort_key (\<lambda>d. dist query (page_content d))
                                      (session_entries b store))
             else [])"
      by (rule similarity_search_results)
  next
    fix d
    assume "d \<in> set (if ok then take (nat k) (sort_key (\<lambda>d. dist query (page_content d))
                                              (session_entries b store))
                     else [])"
    then have "d \<in> set (take (nat k) (sort_key (\<lambda>d. dist query (page_content d))
                                        (session_entries b store)))"
      by (cases ok) simp_all
    then have d: "d \<in> set store \<and> map_of (metadata d) ''session_id'' = Some (str_uuid b)"
      by (rule ranked_subset)
    from d show "d \<in> set store" ..
    from d show "map_of (metadata d) ''session_id'' = Some (str_uuid b)" ..
    assume "a \<noteq> b"
    with d show "map_of (metadata d) ''session_id'' \<noteq> Some (str_uuid a)"
      by (simp add: str_uuid_inj)
  qed
next
  assume ne: "a \<noteq> b"
    and tagged: "\<forall>d \<in> set batch. map_of (metadata d) ''session_id'' = Some (str_uuid a)"
    and added: "add_documents ok' store batch = Inr store'"
  from added have store': "store' = store @ batch" by (rule add_documents_Inr)
  show "similarity_search dist ok store' query b k = similarity_search dist ok store query b k"
    unfolding similarity_search_results store' session_entries_other [OF ne tagged] ..
qed

theorem similarity_search_isolation_witness:
  "similarity_search (\<lambda>q t. 0::nat) True [doc_python, doc_javascript]
       ''What language is discussed?'' (UUID ''B'') 4 = Inr [doc_javascript] \<and>
   add_documents True [doc_javascript] [doc_python] = Inr [doc_javascript, doc_python] \<and>
   similarity_search (\<lambda>q t. 0::nat) True [doc_javascript, doc_python]
       ''What language is discussed?'' (UUID ''B'') 4
     = similarity_search (\<lambda>q t. 0::nat) True [doc_javascript]
         ''What language is discussed?'' (UUID ''B'') 4"
  using similarity_search_isolation [of "\<lambda>q t. 0::nat" True "[doc_javascript]"
      "''What language is discussed?''" "UUID ''B''" 4 "UUID ''A''" "[doc_python]" True
      "[doc_javascript, doc_python]"]
  by (simp add: similarity_search_def asimilarity_search_def matches_filter_def
      add_documents_def aadd_documents_def doc_python_def doc_javascript_def)

text \<open>
  C2 as stated fails: an entry whose session id is the empty string lacks a non-empty
  session id, yet the batch is accepted and stored.
\<close>

theorem add_documents_empty_session_id_counterexample:
  "map_of (metadata doc_empty_session) ''session_id'' = Some '''' \<and>
   add_documents True [] [doc_empty_session] = Inr [doc_empty_session]"
  by (simp add: add_documents_def aadd_documents_def doc_empty_session_def)

text \<open>
  C2 (amended).  If some entry of the batch has no key \<open>session_id\<close> in its metadata,
  the call fails with the \<open>ValueError\<close> and nothing of the batch reaches the backend.
  If every entry has the key, whatever its value, the whole batch is handed to the backend
  in one call: all entries are stored and the call returns when the backend call goes
  through, and the backend's exception propagates otherwise.
\<close>

theorem add_documents_all_or_nothing:
  "add_documents ok store documents =
     (if \<exists>d \<in> set documents. map_of (metadata d) ''session_id'' = None
      then Inl (ValueError ''session_id required in document metadata.'')
      else if ok then Inr (store @ documents)
      else Inl (ExternalError ''aadd_documents''))"
proof (cases "find (\<lambda>doc. map_of (metadata doc) ''session_id'' = None) documents")
  case None
  then have "\<not> (\<exists>d \<in> set documents. map_of (metadata d) ''session_id'' = None)"
    by (simp add: find_None_conv)
  with None show ?thesis by (simp add: add_documents_def aadd_documents_def)
next
  case (Some doc)
  then have "\<exists>d \<in> set documents. map_of (metadata d) ''session_id'' = None"
    using find_None_conv [of "\<lambda>doc. map_of (metadata doc) ''session_id'' = None" documents]
    by auto
  with Some show ?thesis by (simp add: add_documents_def)
qed

theorem add_documents_all_or_nothing_witness:
  "add_documents True [doc_python] [doc_empty_session, doc_untagged]
     = Inl (ValueError ''session_id required in document metadata.'') \<and>
   add_documents True [doc_python] [doc_empty_session, doc_python]
     = Inr [doc_python, doc_empty_session, doc_python] \<and>
   add_documents False [doc_python] [doc_empty_session, doc_python]
     = Inl (ExternalError ''aadd_documents'')"
  using add_documents_all_or_nothing [of True "[doc_python]" "[doc_empty_session, doc_untagged]"]
    add_documents_all_or_nothing [of True "[doc_python]" "[doc_empty_session, doc_python]"]
    add_documents_all_or_nothing [of False "[doc_python]" "[doc_empty_session, doc_python]"]
  by (simp add: doc_python_def doc_empty_session_def doc_untagged_def)

text \<open>
  C8.  Whenever the backend's search raises, for any query, session and \<open>k\<close>, the
  repository's \<open>similarity_search\<close> returns the empty list and no exception.
\<close>

theorem similarity_search_swallows_backend_error:
  "asimilarity_search dist ok store query k [(''session_id'', str_uuid session_id)] = Inl e \<Longrightarrow>
   similarity_search dist ok store query session_id k = Inr []"
  by (simp add: similarity_search_def)

theorem similarity_search_swallows_backend_error_witness:
  "asimilarity_search (\<lambda>q t. 0::nat) False [doc_python] ''language'' 4
       [(''session_id'', str_uuid (UUID ''A''))] = Inl (ExternalError ''asimilarity_search'') \<and>
   similarity_search (\<lambda>q t. 0::nat) False [doc_python] ''language'' (UUID ''A'') 4 = Inr []"
proof -
  have h: "asimilarity_search (\<lambda>q t. 0::nat) False [doc_python] ''language'' 4
       [(''session_id'', str_uuid (UUID ''A''))] = Inl (ExternalError ''asimilarity_search'')"
    by (simp add: asimilarity_search_def)
  from h similarity_search_swallows_backend_error [OF h] show ?thesis by simp
qed

section \<open>Properties of the chat repository\<close>

lemma select_recent_rev:
  "rev (select_recent msgs session_id n) =
     drop (length (session_messages msgs session_id) - n)
       (sort_key msg_created_at (session_messages msgs session_id))"
  by (simp add: select_recent_def session_messages_def rev_take)

lemma entry_created_at_to_entry:
  "map entry_created_at (map to_entry xs) = map msg_created_at xs"
  by (simp add: to_entry_def comp_def)

lemma sorted_map_appendD:
  assumes "sorted (map f (xs @ ys))"
  shows "\<forall>p \<in> set xs. \<forall>w \<in> set ys. f p \<le> f w" and "sorted (map f ys)"
  using assms by (simp_all add: sorted_append)

text \<open>
  C9 (history ordering).  When the read goes through (the session is up and the limit is
  a count, \<open>0 \<le> limit\<close>), \<open>get_history\<close> returns a window of the session's
  messages such that: the window together with the older messages left out is exactly the
  session's messages; no message left out is newer than a message of the window; the
  window is in non-decreasing \<open>created_at\<close> order; and its length is the minimum of the
  limit and the number of messages of the session.
\<close>

theorem get_history_recent_chronological:
  assumes "ok" and "0 \<le> limit"
  shows "\<exists>older window.
           get_history ok msgs session_id limit = Inr (map to_entry window) \<and>
           mset (older @ window) = mset (filter (\<lambda>m. msg_session_id m = session_id) msgs) \<and>
           (\<forall>p \<in> set older. \<forall>w \<in> set window. msg_created_at p \<le> msg_created_at w) \<and>
           sorted (map entry_created_at (map to_entry window)) \<and>
           int (length (map to_entry window)) =
             min limit (int (length (filter (\<lambda>m. msg_session_id m = session_id) msgs)))"
proof -
  let ?S = "session_messages msgs session_id"
  let ?ys = "sort_key msg_created_at ?S"
  let ?c = "length ?S - nat limit"
  let ?older = "take ?c ?ys" and ?window = "drop ?c ?ys"
  have split: "?older @ ?window = ?ys" by (rule append_take_drop_id)
  have sorted_all: "sorted (map msg_created_at (?older @ ?window))"
    unfolding split by (rule sorted_sort_key)
  have res: "get_history ok msgs session_id limit = Inr (map to_entry ?window)"
    using assms by (simp add: get_history_def select_recent_rev)
  have perm: "mset (?older @ ?window) = mset (filter (\<lambda>m. msg_session_id m = session_id) msgs)"
    unfolding split by (simp add: session_messages_def)
  have recent: "\<forall>p \<in> set ?older. \<forall>w \<in> set ?window. msg_created_at p \<le> msg_created_at w"
    using sorted_all by (rule sorted_map_appendD)
  have chrono: "sorted (map entry_created_at (map to_entry ?window))"
    unfolding entry_created_at_to_entry using sorted_all by (rule sorted_map_appendD)
  have len: "int (length (map to_entry ?window)) =
      min limit (int (length (filter (\<lambda>m. msg_session_id m = session_id) msgs)))"
    using assms(2) by (simp add: session_messages_def)
  from res perm recent chrono len show ?thesis by blast
qed

theorem get_history_recent_chronological_witness:
  "get_history True [m3, m_other, m1, m2] (UUID ''s'') 2 = Inr [to_entry m2, to_entry m3] \<and>
   (\<exists>older window.
      get_history True [m3, m_other, m1, m2] (UUID ''s'') 2 = Inr (map to_entry window) \<and>
      mset (older @ window) =
        mset (filter (\<lambda>m. msg_session_id m = UUID ''s'') [m3, m_other, m1, m2]) \<and>
      (\<forall>p \<in> set older. \<forall>w \<in> set window. msg_created_at p \<le> msg_created_at w) \<and>
      sorted (map entry_created_at (map to_entry window)) \<and>
      int (length (map to_entry window)) =
        min 2 (int (length (filter (\<lambda>m. msg_session_id m = UUID ''s'') [m3, m_other, m1, m2]))))"
proof
  show "get_history True [m3, m_other, m1, m2] (UUID ''s'') 2 = Inr [to_entry m2, to_entry m3]"
    by (simp add: get_history_def select_recent_def m1_def m2_def m3_def m_other_def)
  show "\<exists>older window.
      get_history True [m3, m_other, m1, m2] (UUID ''s'') 2 = Inr (map to_entry window) \<and>
      mset (older @ window) =
        mset (filter (\<lambda>m. msg_session_id m = UUID ''s'') [m3, m_other, m1, m2]) \<and>
      (\<forall>p \<in> set older. \<forall>w \<in> set window. msg_created_at p \<le> msg_created_at w) \<and>
      sorted (map entry_created_at (map to_entry window)) \<and>
      int (length (map to_entry window)) =
        min 2 (int (length (filter (\<lambda>m. msg_session_id m = UUID ''s'') [m3, m_other, m1, m2])))"
    using get_history_recent_chronological [of True 2 "[m3, m_other, m1, m2]" "UUID ''s''"]
    by simp
qed

section \<open>Properties of the document repository and the ingestion pipeline\<close>

lemma create_document_Inr:
  assumes "create_document ok nid tbl sid fname mt fs = Inr (doc, tbl0)"
  shows "doc_id doc = nid" and "single_row tbl0 nid"
    and "status_log tbl0 = status_log tbl @ [(nid, ''pending'')]"
proof -
  from assms have fresh: "nid \<notin> set (map doc_id (rows tbl))"
    and doc: "doc = \<lparr>doc_id = nid, doc_session_id = sid, doc_filename = fname,
                 doc_mime_type = mt, doc_file_size = fs, doc_status = ''pending''\<rparr>"
    and tbl0: "tbl0 = tbl\<lparr>rows := rows tbl @ [doc], status_log := status_log tbl @ [(nid, ''pending'')]\<rparr>"
    by (auto simp: create_document_def Let_def split: if_splits)
  from doc show "doc_id doc = nid" by simp
  from fresh have "filter (\<lambda>r. doc_id r = nid) (rows tbl) = []"
    by (auto simp: filter_empty_conv)
  with doc tbl0 show "single_row tbl0 nid" by (simp add: single_row_def)
  from tbl0 show "status_log tbl0 = status_log tbl @ [(nid, ''pending'')]" by simp
qed

lemma update_status_Inr:
  assumes "update_status ok tbl d s = Inr tbl'" and "single_row tbl d"
  shows "status_log tbl' = status_log tbl @ [(d, s)]" and "single_row tbl' d"
    and "map doc_status (filter (\<lambda>r. doc_id r = d) (rows tbl')) = [s]"
proof -
  let ?P = "\<lambda>r. doc_id r = d"
  let ?g = "\<lambda>r. if doc_id r = d then r\<lparr>doc_status := s\<rparr> else r"
  from assms(1) have tbl': "tbl' = tbl\<lparr>rows := map ?g (rows tbl),
      status_log := status_log tbl @ map (\<lambda>r. (doc_id r, s)) (filter ?P (rows tbl))\<rparr>"
    by (simp add: update_status_def split: if_splits)
  from assms(2) obtain x where x: "filter ?P (rows tbl) = [x]"
    by (auto simp: single_row_def length_Suc_conv)
  then have "x \<in> set (filter ?P (rows tbl))" by simp
  then have "doc_id x = d" by simp
  with x tbl' show "status_log tbl' = status_log tbl @ [(d, s)]" by simp
  have "?P \<circ> ?g = ?P" by (rule ext) simp
  then have "filter ?P (map ?g (rows tbl)) = map ?g (filter ?P (rows tbl))"
    unfolding filter_map by (rule arg_cong)
  with tbl' have rows': "filter ?P (rows tbl') = map ?g (filter ?P (rows tbl))" by simp
  with assms(2) show "single_row tbl' d" by (simp add: single_row_def)
  from rows' x \<open>doc_id x = d\<close> show "map doc_status (filter ?P (rows tbl')) = [s]" by simp
qed

lemma update_status_cases:
  assumes "s \<in> set valid_status" and "single_row tbl d"
  obtains (fails) e where "\<not> ok" and "update_status ok tbl d s = Inl e"
  | (writes) tbl' where "ok" and "update_status ok tbl d s = Inr tbl'"
      and "status_log tbl' = status_log tbl @ [(d, s)]" and "single_row tbl' d"
      and "map doc_status (filter (\<lambda>r. doc_id r = d) (rows tbl')) = [s]"
proof (cases ok)
  case False
  then have "update_status ok tbl d s = Inl (ExternalError ''update_status'')"
    by (simp add: update_status_def)
  with False show ?thesis by (rule fails)
next
  case True
  with assms(1) obtain tbl' where u: "update_status ok tbl d s = Inr tbl'"
    by (auto simp: update_status_def)
  from True u update_status_Inr [OF u assms(2)] show ?thesis by (rule writes)
qed

lemma processing_valid: "''processing'' \<in> set valid_status"
  and indexed_valid: "''indexed'' \<in> set valid_status"
  and failed_valid: "''failed'' \<in> set valid_status"
  by (simp_all add: valid_status_def)

lemma ingest_steps_Inr:
  assumes "ingest_steps env tbl store doc content fname sid mime = (Inr x, tbl', store')"
  shows "\<exists>ldr tbl1. choose_loader mime = Inr ldr \<and>
           update_status (ingest_ok env MarkProcessing) tbl (doc_id doc) ''processing'' = Inr tbl1 \<and>
           add_documents (ingest_ok env AddDocuments) store
             (map (stamp sid (doc_id doc) fname) (split_documents env (load env ldr content)))
             = Inr store' \<and>
           update_status (ingest_ok env MarkIndexed) tbl1 (doc_id doc) ''indexed'' = Inr tbl' \<and>
           x = doc_id doc"
  using assms unfolding ingest_steps_def Let_def
  by (auto split: sum.splits if_splits)

lemma ingest_steps_unsupported:
  assumes "choose_loader mime = Inl e"
    and "ingest_steps env tbl store doc content fname sid mime = (r, tbl', store')"
  shows "store' = store" and "\<exists>e'. r = Inl e'"
    and "ingest_ok env MarkProcessing \<Longrightarrow> ingest_ok env WriteTempFile \<Longrightarrow> r = Inl e"
  using assms unfolding ingest_steps_def
  by (auto simp: update_status_def processing_valid split: sum.splits if_splits)

lemma ingest_steps_log:
  assumes row: "single_row tbl d" and d: "doc_id doc = d"
    and run: "ingest_steps env tbl store doc content fname sid mime = (r, tbl', store')"
  shows "single_row tbl' d \<and>
     ((status_log tbl' = status_log tbl \<and> \<not> ingest_ok env MarkProcessing \<and> (\<exists>e. r = Inl e)) \<or>
      (status_log tbl' = status_log tbl @ [(d, ''processing'')] \<and> (\<exists>e. r = Inl e)) \<or>
      (status_log tbl' = status_log tbl @ [(d, ''processing''), (d, ''indexed'')] \<and> r = Inr d))"
  using processing_valid row
proof (cases rule: update_status_cases [where ok = "ingest_ok env MarkProcessing"])
  case (fails e)
  with run d row show ?thesis by (auto simp: ingest_steps_def)
next
  case (writes tbl1)
  note w1 = this
  show ?thesis
  proof (cases r)
    case (Inl e)
    with run d w1(2) have "tbl' = tbl1"
      unfolding ingest_steps_def Let_def by (auto split: sum.splits if_splits)
    with w1 Inl show ?thesis by simp
  next
    case (Inr x)
    with run ingest_steps_Inr [of env tbl store doc content fname sid mime x tbl' store']
    have u: "update_status (ingest_ok env MarkIndexed) tbl1 d ''indexed'' = Inr tbl'" and x: "x = d"
      using d w1(2) by auto
    from update_status_Inr [OF u w1(4)] w1(3) x Inr show ?thesis by simp
  qed
qed

lemma status_sequence_append:
  "status_log tbl' = status_log tbl @ map (Pair n) seq \<Longrightarrow>
   status_sequence tbl' d = status_sequence tbl d @ (if d = n then seq else [])"
  by (simp add: status_sequence_def comp_def filter_empty_conv)

lemma ingest_document_log:
  assumes run: "ingest_document env tbl store content fname sid mime = (r, tbl', store')"
  shows "\<exists>seq. status_log tbl' = status_log tbl @ map (Pair (new_document_id env)) seq \<and>
           (seq = [] \<and> (\<exists>e. r = Inl e) \<or>
            seq = [''pending''] \<and> (\<exists>e. r = Inl e) \<or>
            seq = [''pending'', ''processing''] \<and> (\<exists>e. r = Inl e) \<or>
            seq = [''pending'', ''processing'', ''indexed''] \<and> r = Inr (new_document_id env) \<or>
            seq = [''pending'', ''processing'', ''failed''] \<and> (\<exists>e. r = Inl e) \<or>
            seq = [''pending'', ''failed''] \<and> \<not> ingest_ok env MarkProcessing \<and> (\<exists>e. r = Inl e))"
    (is "\<exists>seq. ?log seq \<and> ?outcome seq")
proof (cases "create_document (ingest_ok env CreateDocument) (new_document_id env) tbl sid fname mime
                (length content)")
  case (Inl e)
  with run have "tbl' = tbl" and "r = Inl e" by (simp_all add: ingest_document_def)
  then have "?log [] \<and> ?outcome []" by simp
  then show ?thesis by (intro exI)
next
  case (Inr created)
  let ?n = "new_document_id env"
  obtain doc tbl0 where created: "created = (doc, tbl0)" by (cases created)
  note c = create_document_Inr [OF Inr [unfolded created]]
  obtain r1 tbl1 store1
    where steps: "ingest_steps env tbl0 store doc content fname sid mime = (r1, tbl1, store1)"
    by (cases "ingest_steps env tbl0 store doc content fname sid mime")
  from ingest_steps_log [OF c(2) c(1) steps]
  have row1: "single_row tbl1 ?n"
    and log1: "status_log tbl1 = status_log tbl0 \<and> \<not> ingest_ok env MarkProcessing \<and> (\<exists>e. r1 = Inl e) \<or>
        status_log tbl1 = status_log tbl0 @ [(?n, ''processing'')] \<and> (\<exists>e. r1 = Inl e) \<or>
        status_log tbl1 = status_log tbl0 @ [(?n, ''processing''), (?n, ''indexed'')] \<and> r1 = Inr ?n"
    by simp_all
  have cases3: "\<And>P. (\<And>e. status_log tbl1 = status_log tbl0 \<Longrightarrow> \<not> ingest_ok env MarkProcessing \<Longrightarrow> r1 = Inl e \<Longrightarrow> P) \<Longrightarrow>
      (\<And>e. status_log tbl1 = status_log tbl0 @ [(?n, ''processing'')] \<Longrightarrow> r1 = Inl e \<Longrightarrow> P) \<Longrightarrow>
      (status_log tbl1 = status_log tbl0 @ [(?n, ''processing''), (?n, ''indexed'')] \<Longrightarrow> r1 = Inr ?n \<Longrightarrow> P) \<Longrightarrow> P"
    using log1 by (elim disjE conjE exE)
  then consider
      (unmarked) e where "status_log tbl1 = status_log tbl0" "\<not> ingest_ok env MarkProcessing" "r1 = Inl e"
    | (marked) e where "status_log tbl1 = status_log tbl0 @ [(?n, ''processing'')]" "r1 = Inl e"
    | (indexed) "status_log tbl1 = status_log tbl0 @ [(?n, ''processing''), (?n, ''indexed'')]" "r1 = Inr ?n"
    by this
  then show ?thesis
  proof cases
    case indexed
    with run Inr created steps have "r = Inr ?n" and "tbl' = tbl1" by (simp_all add: ingest_document_def)
    with indexed c(3) have "?log [''pending'', ''processing'', ''indexed''] \<and>
        ?outcome [''pending'', ''processing'', ''indexed'']" by simp
    then show ?thesis by (intro exI)
  next
    case (unmarked e)
    from failed_valid row1 show ?thesis
    proof (cases rule: update_status_cases [where ok = "ingest_ok env MarkFailed"])
      case (fails e')
      with run Inr created steps unmarked c(1) have "r = Inl e'" and "tbl' = tbl1"
        by (simp_all add: ingest_document_def)
      with unmarked c(3) have "?log [''pending''] \<and> ?outcome [''pending'']" by simp
      then show ?thesis by (intro exI)
    next
      case (writes tbl2)
      with run Inr created steps unmarked c(1) have "r = Inl e" and "tbl' = tbl2"
        by (simp_all add: ingest_document_def)
      with unmarked c(3) writes(3) have "?log [''pending'', ''failed''] \<and> ?outcome [''pending'', ''failed'']"
        by simp
      then show ?thesis by (intro exI)
    qed
  next
    case (marked e)
    from failed_valid row1 show ?thesis
    proof (cases rule: update_status_cases [where ok = "ingest_ok env MarkFailed"])
      case (fails e')
      with run Inr created steps marked c(1) have "r = Inl e'" and "tbl' = tbl1"
        by (simp_all add: ingest_document_def)
      with marked c(3) have "?log [''pending'', ''processing''] \<and> ?outcome [''pending'', ''processing'']"
        by simp
      then show ?thesis by (intro exI)
    next
      case (writes tbl2)
      with run Inr created steps marked c(1) have "r = Inl e" and "tbl' = tbl2"
        by (simp_all add: ingest_document_def)
      with marked c(3) writes(3) have "?log [''pending'', ''processing'', ''failed''] \<and>
          ?outcome [''pending'', ''processing'', ''failed'']"
        by simp
      then show ?thesis by (intro exI)
    qed
  qed
qed

lemma run_processing_fails:
  "ingest_document env_processing_fails empty_table [] ''hello'' ''a.txt'' (UUID ''s'') ''text/plain''
     = (Inl (ExternalError ''update_status''),
        \<lparr>rows = [\<lparr>doc_id = UUID ''d1'', doc_session_id = UUID ''s'', doc_filename = ''a.txt'',
                   doc_mime_type = ''text/plain'', doc_file_size = 5, doc_status = ''failed''\<rparr>],
         status_log = [(UUID ''d1'', ''pending''), (UUID ''d1'', ''failed'')]\<rparr>,
        [])"
  by (simp add: ingest_document_def ingest_steps_def create_document_def update_status_def
      valid_status_def env_processing_fails_def env_ok_def empty_table_def Let_def)

text \<open>
  C5 as stated fails: when the update to \<open>processing\<close> raises and the handler's update
  to \<open>failed\<close> goes through, the document is observed as \<open>pending\<close>, then
  \<open>failed\<close>, which is not a prefix of \<open>pending, processing, indexed\<close> nor of
  \<open>pending, processing, failed\<close>.
\<close>

theorem ingest_document_pending_to_failed_counterexample:
  "status_sequence
     (fst (snd (ingest_document env_processing_fails empty_table [] ''hello'' ''a.txt'' (UUID ''s'')
                  ''text/plain''))) (UUID ''d1'') = [''pending'', ''failed''] \<and>
   \<not> prefix [''pending'', ''failed''] [''pending'', ''processing'', ''indexed''] \<and>
   \<not> prefix [''pending'', ''failed''] [''pending'', ''processing'', ''failed'']"
  by (simp add: run_processing_fails status_sequence_def)

text \<open>
  C5 (amended).  For every run of \<open>ingest_document\<close>, under every pattern of step
  success and failure, the run writes statuses to its own document only (every other
  document's observed sequence is unchanged), and the sequence it writes is one of:
  nothing, \<open>pending\<close>, \<open>pending, processing\<close>, \<open>pending, processing, indexed\<close>
  (exactly the successful runs), \<open>pending, processing, failed\<close>, or
  \<open>pending, failed\<close>; the last one only when the update to \<open>processing\<close> itself
  failed.  No status is written after \<open>indexed\<close> or \<open>failed\<close>.
\<close>

theorem ingest_document_status_sequence:
  assumes run: "ingest_document env tbl store content fname sid mime = (r, tbl', store')"
  shows "\<exists>seq. (\<forall>d. status_sequence tbl' d =
                     status_sequence tbl d @ (if d = new_document_id env then seq else [])) \<and>
           (seq = [] \<and> (\<exists>e. r = Inl e) \<or>
            seq = [''pending''] \<and> (\<exists>e. r = Inl e) \<or>
            seq = [''pending'', ''processing''] \<and> (\<exists>e. r = Inl e) \<or>
            seq = [''pending'', ''processing'', ''indexed''] \<and> r = Inr (new_document_id env) \<or>
            seq = [''pending'', ''processing'', ''failed''] \<and> (\<exists>e. r = Inl e) \<or>
            seq = [''pending'', ''failed''] \<and> \<not> ingest_ok env MarkProcessing \<and> (\<exists>e. r = Inl e))"
    (is "\<exists>seq. ?observed seq \<and> ?outcome seq")
  using ingest_document_log [OF run]
proof (elim exE conjE)
  fix seq
  assume log: "status_log tbl' = status_log tbl @ map (Pair (new_document_id env)) seq"
    and out: "?outcome seq"
  from log have "?observed seq" by (simp add: status_sequence_append)
  with out show ?thesis by (intro exI conjI)
qed

text \<open>The run of the counterexample, as an instance of the amended C5.\<close>

theorem ingest_document_status_sequence_witness:
  "ingest_document env_processing_fails empty_table [] ''hello'' ''a.txt'' (UUID ''s'') ''text/plain''
     = (Inl (ExternalError ''update_status''),
        \<lparr>rows = [\<lparr>doc_id = UUID ''d1'', doc_session_id = UUID ''s'', doc_filename = ''a.txt'',
                   doc_mime_type = ''text/plain'', doc_file_size = 5, doc_status = ''failed''\<rparr>],
         status_log = [(UUID ''d1'', ''pending''), (UUID ''d1'', ''failed'')]\<rparr>,
        []) \<and>
   (\<exists>seq. (\<forall>d. status_sequence
                  \<lparr>rows = [\<lparr>doc_id = UUID ''d1'', doc_session_id = UUID ''s'',
                             doc_filename = ''a.txt'', doc_mime_type = ''text/plain'',
                             doc_file_size = 5, doc_status = ''failed''\<rparr>],
                   status_log = [(UUID ''d1'', ''pending''), (UUID ''d1'', ''failed'')]\<rparr> d =
                status_sequence empty_table d @
                  (if d = new_document_id env_processing_fails then seq else [])) \<and>
           (seq = [] \<and> (\<exists>e. Inl (ExternalError ''update_status'') = (Inl e :: error + uuid)) \<or>
            seq = [''pending''] \<and> (\<exists>e. Inl (ExternalError ''update_status'') = (Inl e :: error + uuid)) \<or>
            seq = [''pending'', ''processing''] \<and>
              (\<exists>e. Inl (ExternalError ''update_status'') = (Inl e :: error + uuid)) \<or>
            seq = [''pending'', ''processing'', ''indexed''] \<and>
              Inl (ExternalError ''update_status'') = Inr (new_document_id env_processing_fails) \<or>
            seq = [''pending'', ''processing'', ''failed''] \<and>
              (\<exists>e. Inl (ExternalError ''update_status'') = (Inl e :: error + uuid)) \<or>
            seq = [''pending'', ''failed''] \<and> \<not> ingest_ok env_processing_fails MarkProcessing \<and>
              (\<exists>e. Inl (ExternalError ''update_status'') = (Inl e :: error + uuid))))"
  using run_processing_fails ingest_document_status_sequence [OF run_processing_fails]
  by (intro conjI)

lemma choose_loader_unsupported:
  "mime \<notin> set [''application/pdf'', ''text/plain'', ''text/markdown''] \<Longrightarrow>
   choose_loader mime = Inl (ValueError (''Unsupported file type: '' @ mime))"
  by (simp add: choose_loader_def)

lemma run_markdown:
  "ingest_document env_ok empty_table [] ''# notes'' ''notes.md'' (UUID ''s'') ''text/markdown''
     = (Inr (UUID ''d1''),
        \<lparr>rows = [\<lparr>doc_id = UUID ''d1'', doc_session_id = UUID ''s'', doc_filename = ''notes.md'',
                   doc_mime_type = ''text/markdown'', doc_file_size = 7, doc_status = ''indexed''\<rparr>],
         status_log = [(UUID ''d1'', ''pending''), (UUID ''d1'', ''processing''),
                       (UUID ''d1'', ''indexed'')]\<rparr>,
        [\<lparr>page_content = ''# notes'',
          metadata = [(''source'', ''tmp''), (''session_id'', ''s''), (''document_id'', ''d1''),
                      (''filename'', ''notes.md'')]\<rparr>])"
  by (simp add: ingest_document_def ingest_steps_def create_document_def update_status_def
      valid_status_def env_ok_def empty_table_def Let_def choose_loader_def stamp_def
      add_documents_def aadd_documents_def)

text \<open>
  C6 as stated fails: \<open>text/markdown\<close> is neither \<open>application/pdf\<close> nor
  \<open>text/plain\<close>, yet \<open>ingest_document\<close> accepts it, indexes its chunk and leaves the
  document \<open>indexed\<close>.
\<close>

theorem ingest_document_accepts_markdown_counterexample:
  "''text/markdown'' \<noteq> ''application/pdf'' \<and> ''text/markdown'' \<noteq> ''text/plain'' \<and>
   ingest_document env_ok empty_table [] ''# notes'' ''notes.md'' (UUID ''s'') ''text/markdown''
     = (Inr (UUID ''d1''),
        \<lparr>rows = [\<lparr>doc_id = UUID ''d1'', doc_session_id = UUID ''s'', doc_filename = ''notes.md'',
                   doc_mime_type = ''text/markdown'', doc_file_size = 7, doc_status = ''indexed''\<rparr>],
         status_log = [(UUID ''d1'', ''pending''), (UUID ''d1'', ''processing''),
                       (UUID ''d1'', ''indexed'')]\<rparr>,
        [\<lparr>page_content = ''# notes'',
          metadata = [(''source'', ''tmp''), (''session_id'', ''s''), (''document_id'', ''d1''),
                      (''filename'', ''notes.md'')]\<rparr>])"
  by (simp add: run_markdown)

lemma ingest_document_unsupported_any:
  assumes mime: "mime \<notin> set [''application/pdf'', ''text/plain'', ''text/markdown'']"
    and run: "ingest_document env tbl store content fname sid mime = (r, tbl', store')"
  shows "store' = store" and "\<exists>e. r = Inl e"
proof (atomize (full), cases "create_document (ingest_ok env CreateDocument) (new_document_id env) tbl sid fname mime
                (length content)")
  case (Inl e)
  with run show "store' = store \<and> (\<exists>e. r = Inl e)" by (auto simp: ingest_document_def)
next
  case (Inr created)
  obtain doc tbl0 where created: "created = (doc, tbl0)" by (cases created)
  obtain r1 tbl1 store1
    where steps: "ingest_steps env tbl0 store doc content fname sid mime = (r1, tbl1, store1)"
    by (cases "ingest_steps env tbl0 store doc content fname sid mime")
  note u = ingest_steps_unsupported [OF choose_loader_unsupported [OF mime] steps]
  from u(2) obtain e1 where r1: "r1 = Inl e1" by (elim exE)
  from run Inr created steps r1 u(1) show "store' = store \<and> (\<exists>e. r = Inl e)"
    by (auto simp: ingest_document_def split: sum.splits)
qed

lemma ingest_document_unsupported_clean:
  assumes mime: "mime \<notin> set [''application/pdf'', ''text/plain'', ''text/markdown'']"
    and run: "ingest_document env tbl store content fname sid mime = (r, tbl', store')"
    and ok: "ingest_ok env CreateDocument" "new_document_id env \<notin> set (map doc_id (rows tbl))"
      "ingest_ok env MarkProcessing" "ingest_ok env WriteTempFile" "ingest_ok env MarkFailed"
  shows "r = Inl (ValueError (''Unsupported file type: '' @ mime)) \<and>
         status_log tbl' = status_log tbl @
           [(new_document_id env, ''pending''), (new_document_id env, ''processing''),
            (new_document_id env, ''failed'')] \<and>
         map doc_status (filter (\<lambda>row. doc_id row = new_document_id env) (rows tbl')) = [''failed'']"
proof -
  let ?n = "new_document_id env"
  from ok(1,2) obtain doc tbl0
    where cr: "create_document (ingest_ok env CreateDocument) ?n tbl sid fname mime (length content)
                 = Inr (doc, tbl0)"
    by (simp add: create_document_def Let_def)
  note c = create_document_Inr [OF cr]
  obtain r1 tbl1 store1
    where steps: "ingest_steps env tbl0 store doc content fname sid mime = (r1, tbl1, store1)"
    by (cases "ingest_steps env tbl0 store doc content fname sid mime")
  note u = ingest_steps_unsupported [OF choose_loader_unsupported [OF mime] steps]
  from u(3) [OF ok(3) ok(4)] have r1: "r1 = Inl (ValueError (''Unsupported file type: '' @ mime))" .
  from ingest_steps_log [OF c(2) c(1) steps] ok(3) r1
  have row1: "single_row tbl1 ?n" and log1: "status_log tbl1 = status_log tbl0 @ [(?n, ''processing'')]"
    by simp_all
  from failed_valid row1 show ?thesis
  proof (cases rule: update_status_cases [where ok = "ingest_ok env MarkFailed"])
    case (fails e)
    with ok(5) show ?thesis by simp
  next
    case (writes tbl2)
    with run cr steps r1 c(1) have "r = r1" and "tbl' = tbl2"
      by (simp_all add: ingest_document_def)
    with r1 writes(3,5) log1 c(3) show ?thesis by simp
  qed
qed

text \<open>
  C6 (amended).  For every MIME type other than \<open>application/pdf\<close>, \<open>text/plain\<close>
  and \<open>text/markdown\<close>, \<open>ingest_document\<close> fails and indexes nothing, whatever
  the collaborators do; when the document record can be created, marked and the temporary
  file written, the error is the \<open>ValueError\<close> for the unsupported type, and when the
  update to \<open>failed\<close> goes through as well, the document goes \<open>pending\<close>,
  \<open>processing\<close>, \<open>failed\<close> and its row ends \<open>failed\<close>.  The upload route
  accepts only \<open>application/pdf\<close> and \<open>text/plain\<close>: any other content type is
  answered with status 400 before the pipeline runs, and nothing is created or indexed.
\<close>

theorem unsupported_mime_type_rejected:
  "(mime \<notin> set [''application/pdf'', ''text/plain'', ''text/markdown''] \<longrightarrow>
      ingest_document env tbl store content fname sid mime = (r, tbl', store') \<longrightarrow>
        store' = store \<and> (\<exists>e. r = Inl e) \<and>
        (ingest_ok env CreateDocument \<and> new_document_id env \<notin> set (map doc_id (rows tbl)) \<and>
         ingest_ok env MarkProcessing \<and> ingest_ok env WriteTempFile \<and> ingest_ok env MarkFailed \<longrightarrow>
           r = Inl (ValueError (''Unsupported file type: '' @ mime)) \<and>
           status_log tbl' = status_log tbl @
             [(new_document_id env, ''pending''), (new_document_id env, ''processing''),
              (new_document_id env, ''failed'')] \<and>
           map doc_status (filter (\<lambda>row. doc_id row = new_document_id env) (rows tbl')) =
             [''failed''])) \<and>
   (content_type \<notin> set [''application/pdf'', ''text/plain''] \<longrightarrow>
      upload_document env tbl store sid fname content_type content =
        (Inl (HTTPException 400 (''Unsupported file type: '' @ content_type @
               ''. Allowed: ['application/pdf', 'text/plain']'')), tbl, store))"
proof (intro conjI impI)
  assume mime: "mime \<notin> set [''application/pdf'', ''text/plain'', ''text/markdown'']"
    and run: "ingest_document env tbl store content fname sid mime = (r, tbl', store')"
  show "store' = store" by (rule ingest_document_unsupported_any(1) [OF mime run])
  show "\<exists>e. r = Inl e" by (rule ingest_document_unsupported_any(2) [OF mime run])
  assume "ingest_ok env CreateDocument \<and> new_document_id env \<notin> set (map doc_id (rows tbl)) \<and>
         ingest_ok env MarkProcessing \<and> ingest_ok env WriteTempFile \<and> ingest_ok env MarkFailed"
  then have ok: "ingest_ok env CreateDocument" "new_document_id env \<notin> set (map doc_id (rows tbl))"
      "ingest_ok env MarkProcessing" "ingest_ok env WriteTempFile" "ingest_ok env MarkFailed"
    by simp_all
  note clean = ingest_document_unsupported_clean [OF mime run ok]
  from clean show "r = Inl (ValueError (''Unsupported file type: '' @ mime))" by (rule conjunct1)
  from clean [THEN conjunct2] show "status_log tbl' = status_log tbl @
             [(new_document_id env, ''pending''), (new_document_id env, ''processing''),
              (new_document_id env, ''failed'')]" by (rule conjunct1)
  from clean [THEN conjunct2] show
    "map doc_status (filter (\<lambda>row. doc_id row = new_document_id env) (rows tbl')) = [''failed'']"
    by (rule conjunct2)
next
  assume "content_type \<notin> set [''application/pdf'', ''text/plain'']"
  then show "upload_document env tbl store sid fname content_type content =
        (Inl (HTTPException 400 (''Unsupported file type: '' @ content_type @
               ''. Allowed: ['application/pdf', 'text/plain']'')), tbl, store)"
    by (simp add: upload_document_def allowed_types_def)
qed

lemma run_png:
  "ingest_document env_ok empty_table [] ''png'' ''a.png'' (UUID ''s'') ''image/png''
     = (Inl (ValueError ''Unsupported file type: image/png''),
        \<lparr>rows = [\<lparr>doc_id = UUID ''d1'', doc_session_id = UUID ''s'', doc_filename = ''a.png'',
                   doc_mime_type = ''image/png'', doc_file_size = 3, doc_status = ''failed''\<rparr>],
         status_log = [(UUID ''d1'', ''pending''), (UUID ''d1'', ''processing''),
                       (UUID ''d1'', ''failed'')]\<rparr>,
        [])"
  by (simp add: ingest_document_def ingest_steps_def create_document_def update_status_def
      valid_status_def env_ok_def empty_table_def Let_def choose_loader_def)

text \<open>\<open>image/png\<close> at the pipeline and \<open>text/markdown\<close> at the route, as instances of
  the amended C6.\<close>

theorem unsupported_mime_type_rejected_witness:
  "ingest_document env_ok empty_table [] ''png'' ''a.png'' (UUID ''s'') ''image/png''
     = (Inl (ValueError ''Unsupported file type: image/png''),
        \<lparr>rows = [\<lparr>doc_id = UUID ''d1'', doc_session_id = UUID ''s'', doc_filename = ''a.png'',
                   doc_mime_type = ''image/png'', doc_file_size = 3, doc_status = ''failed''\<rparr>],
         status_log = [(UUID ''d1'', ''pending''), (UUID ''d1'', ''processing''),
                       (UUID ''d1'', ''failed'')]\<rparr>,
        []) \<and>
   upload_document env_ok empty_table [] (UUID ''s'') ''notes.md'' ''text/markdown'' ''# notes''
     = (Inl (HTTPException 400
          ''Unsupported file type: text/markdown. Allowed: ['application/pdf', 'text/plain']''),
        empty_table, [])"
  using unsupported_mime_type_rejected [where mime = "''image/png''" and env = env_ok
      and tbl = empty_table and store = "[]" and content = "''png''" and fname = "''a.png''"
      and sid = "UUID ''s''" and r = "Inl (ValueError ''Unsupported file type: image/png'')"
      and tbl' = "\<lparr>rows = [\<lparr>doc_id = UUID ''d1'', doc_session_id = UUID ''s'',
                               doc_filename = ''a.png'', doc_mime_type = ''image/png'',
                               doc_file_size = 3, doc_status = ''failed''\<rparr>],
                     status_log = [(UUID ''d1'', ''pending''), (UUID ''d1'', ''processing''),
                                   (UUID ''d1'', ''failed'')]\<rparr>"
      and store' = "[]" and content_type = "''text/markdown''"]
    unsupported_mime_type_rejected [where content_type = "''text/markdown''" and env = env_ok
      and tbl = empty_table and store = "[]" and sid = "UUID ''s''" and fname = "''notes.md''"
      and content = "''# notes''"]
  by (simp add: run_png)

lemma stamp_metadata:
  "map_of (metadata (stamp sid did fname c)) =
     (map_of (metadata c))(''session_id'' \<mapsto> str_uuid sid, ''document_id'' \<mapsto> str_uuid did,
        ''filename'' \<mapsto> fname)"
  by (simp add: stamp_def update_conv')

lemma stamp_page_content: "page_content (stamp sid did fname c) = page_content c"
  by (simp add: stamp_def)

lemma stamped_batch:
  "c \<in> set (map (stamp sid did fname) chunks) \<Longrightarrow>
     map_of (metadata c) ''session_id'' = Some (str_uuid sid) \<and>
     map_of (metadata c) ''document_id'' = Some (str_uuid did) \<and>
     map_of (metadata c) ''filename'' = Some fname"
  by (auto simp: stamp_metadata)

lemma ingest_document_Inr:
  assumes run: "ingest_document env tbl store content fname sid mime = (Inr x, tbl', store')"
  shows "\<exists>ldr. choose_loader mime = Inr ldr \<and> x = new_document_id env \<and>
           add_documents (ingest_ok env AddDocuments) store
             (map (stamp sid x fname) (split_documents env (load env ldr content))) = Inr store'"
proof (cases "create_document (ingest_ok env CreateDocument) (new_document_id env) tbl sid fname mime
                (length content)")
  case (Inl e)
  with run show ?thesis by (simp add: ingest_document_def)
next
  case (Inr created)
  obtain doc tbl0 where created: "created = (doc, tbl0)" by (cases created)
  note c = create_document_Inr [OF Inr [unfolded created]]
  obtain r1 tbl1 store1
    where steps: "ingest_steps env tbl0 store doc content fname sid mime = (r1, tbl1, store1)"
    by (cases "ingest_steps env tbl0 store doc content fname sid mime")
  from run Inr created steps have "r1 = Inr x \<and> tbl1 = tbl' \<and> store1 = store'"
    by (cases r1) (simp_all add: ingest_document_def split: sum.splits)
  with steps have "ingest_steps env tbl0 store doc content fname sid mime = (Inr x, tbl', store')"
    by simp
  from ingest_steps_Inr [OF this] c(1) show ?thesis by auto
qed

text \<open>
  C7 (chunk completeness and stamping).  Whenever \<open>ingest_document\<close> succeeds, the
  batch handed to \<open>add_documents\<close>, in one call, is the list of the chunks the splitter
  produced for the loaded text, each stamped: same length, same texts in the same order,
  and every chunk of the batch carries the session id, the document id and the filename.
  The collection afterwards is the collection before followed by exactly this batch.
\<close>

theorem ingest_document_indexes_all_chunks:
  assumes run: "ingest_document env tbl store content fname sid mime = (Inr document_id, tbl', store')"
  shows "\<exists>ldr chunks batch.
           choose_loader mime = Inr ldr \<and>
           chunks = split_documents env (load env ldr content) \<and>
           batch = map (stamp sid document_id fname) chunks \<and>
           add_documents (ingest_ok env AddDocuments) store batch = Inr store' \<and>
           store' = store @ batch \<and>
           length batch = length chunks \<and>
           map page_content batch = map page_content chunks \<and>
           (\<forall>c \<in> set batch.
              map_of (metadata c) ''session_id'' = Some (str_uuid sid) \<and>
              map_of (metadata c) ''document_id'' = Some (str_uuid document_id) \<and>
              map_of (metadata c) ''filename'' = Some fname)"
proof -
  from ingest_document_Inr [OF run] obtain ldr
    where ldr: "choose_loader mime = Inr ldr"
      and add: "add_documents (ingest_ok env AddDocuments) store
             (map (stamp sid document_id fname) (split_documents env (load env ldr content)))
             = Inr store'"
    by (elim exE conjE)
  let ?chunks = "split_documents env (load env ldr content)"
  let ?batch = "map (stamp sid document_id fname) ?chunks"
  from add have store': "store' = store @ ?batch" by (rule add_documents_Inr)
  have len: "length ?batch = length ?chunks" by simp
  have same_text: "map page_content ?batch = map page_content ?chunks"
    by (simp add: stamp_page_content comp_def)
  have tags: "\<forall>c \<in> set ?batch.
              map_of (metadata c) ''session_id'' = Some (str_uuid sid) \<and>
              map_of (metadata c) ''document_id'' = Some (str_uuid document_id) \<and>
              map_of (metadata c) ''filename'' = Some fname"
    using stamped_batch by blast
  from ldr add store' len same_text tags show ?thesis
    by (intro exI [where x = ldr] exI [where x = "?chunks"] exI [where x = "?batch"] conjI refl)
qed

text \<open>A successful run on a one-chunk text file, as an instance of C7.\<close>

theorem ingest_document_indexes_all_chunks_witness:
  "ingest_document env_ok empty_table [doc_python] ''hello'' ''a.txt'' (UUID ''s'') ''text/plain''
     = (Inr (UUID ''d1''),
        \<lparr>rows = [\<lparr>doc_id = UUID ''d1'', doc_session_id = UUID ''s'', doc_filename = ''a.txt'',
                   doc_mime_type = ''text/plain'', doc_file_size = 5, doc_status = ''indexed''\<rparr>],
         status_log = [(UUID ''d1'', ''pending''), (UUID ''d1'', ''processing''),
                       (UUID ''d1'', ''indexed'')]\<rparr>,
        [doc_python,
         \<lparr>page_content = ''hello'',
          metadata = [(''source'', ''tmp''), (''session_id'', ''s''), (''document_id'', ''d1''),
                      (''filename'', ''a.txt'')]\<rparr>]) \<and>
   (\<exists>ldr chunks batch.
      choose_loader ''text/plain'' = Inr ldr \<and>
      chunks = split_documents env_ok (load env_ok ldr ''hello'') \<and>
      batch = map (stamp (UUID ''s'') (UUID ''d1'') ''a.txt'') chunks \<and>
      length batch = length chunks \<and>
      [doc_python,
       \<lparr>page_content = ''hello'',
        metadata = [(''source'', ''tmp''), (''session_id'', ''s''), (''document_id'', ''d1''),
                    (''filename'', ''a.txt'')]\<rparr>] = [doc_python] @ batch)"
proof -
  have run: "ingest_document env_ok empty_table [doc_python] ''hello'' ''a.txt'' (UUID ''s'') ''text/plain''
     = (Inr (UUID ''d1''),
        \<lparr>rows = [\<lparr>doc_id = UUID ''d1'', doc_session_id = UUID ''s'', doc_filename = ''a.txt'',
                   doc_mime_type = ''text/plain'', doc_file_size = 5, doc_status = ''indexed''\<rparr>],
         status_log = [(UUID ''d1'', ''pending''), (UUID ''d1'', ''processing''),
                       (UUID ''d1'', ''indexed'')]\<rparr>,
        [doc_python,
         \<lparr>page_content = ''hello'',
          metadata = [(''source'', ''tmp''), (''session_id'', ''s''), (''document_id'', ''d1''),
                      (''filename'', ''a.txt'')]\<rparr>])"
    by (simp add: ingest_document_def ingest_steps_def create_document_def update_status_def
        valid_status_def env_ok_def empty_table_def Let_def choose_loader_def stamp_def
        add_documents_def aadd_documents_def doc_python_def)
  from ingest_document_indexes_all_chunks [OF run] obtain ldr chunks batch where
    "choose_loader ''text/plain'' = Inr ldr"
    "chunks = split_documents env_ok (load env_ok ldr ''hello'')"
    "batch = map (stamp (UUID ''s'') (UUID ''d1'') ''a.txt'') chunks"
    "length batch = length chunks"
    "[doc_python,
       \<lparr>page_content = ''hello'',
        metadata = [(''source'', ''tmp''), (''session_id'', ''s''), (''document_id'', ''d1''),
                    (''filename'', ''a.txt'')]\<rparr>] = [doc_python] @ batch"
    by (elim exE conjE)
  with run show ?thesis by (intro conjI exI)
qed

section \<open>Properties of the chat service\<close>

lemma add_message_eq:
  "add_message ok now msgs sid role content =
     (if ok \<and> role \<in> set valid_role
      then Inr (message_row sid role content now, msgs @ [message_row sid role content now])
      else Inl (ExternalError ''add_message''))"
  by (simp add: add_message_def message_row_def Let_def)

lemma user_valid: "''user'' \<in> set valid_role" and assistant_valid: "''assistant'' \<in> set valid_role"
  by (simp_all add: valid_role_def)

lemma fallback_response_eq:
  "fallback_response env message =
     Inr (if chat_ok env FallbackGenerate
          then llm env [SystemMessage ''You are a helpful assistant.'', HumanMessage message]
          else apology)"
  by (simp add: fallback_response_def ainvoke_def)

lemma rag_messages_not_saved:
  "\<not> chat_ok env SaveUserMessage \<Longrightarrow>
   rag_messages env msgs store sid um = (Inl (ExternalError ''add_message''), msgs)"
  by (simp add: rag_messages_def add_message_eq)

lemma rag_messages_saved:
  assumes "chat_ok env SaveUserMessage"
  shows "\<exists>r. rag_messages env msgs store sid um =
           (r, msgs @ [message_row sid ''user'' um (clock env SaveUserMessage)])"
  using assms
  by (simp add: rag_messages_def add_message_eq user_valid similarity_search_results Let_def
      split: sum.splits)

lemma rag_response_saved:
  fixes env :: "('d::linorder) chat_env"
  assumes saved: "chat_ok env SaveUserMessage"
  shows "(\<exists>request. rag_messages env msgs store sid um = (Inr request, msgs @ [message_row sid ''user'' um (clock env SaveUserMessage)]) \<and>
            chat_ok env Generate \<and> chat_ok env SaveAssistantMessage \<and>
            rag_response env msgs store sid um =
              (Inr (llm env request),
               msgs @ [message_row sid ''user'' um (clock env SaveUserMessage)] @ [message_row sid ''assistant'' (llm env request)
                               (clock env SaveAssistantMessage)])) \<or>
         (\<exists>e. rag_response env msgs store sid um = (Inl e, msgs @ [message_row sid ''user'' um (clock env SaveUserMessage)]))"
proof -
  from rag_messages_saved [OF saved, of msgs store sid um] obtain r
    where r: "rag_messages env msgs store sid um = (r, msgs @ [message_row sid ''user'' um (clock env SaveUserMessage)])"
    by (rule exE)
  show ?thesis
  proof (cases r)
    case (Inl e)
    with r have "rag_response env msgs store sid um = (Inl e, msgs @ [message_row sid ''user'' um (clock env SaveUserMessage)])"
      by (simp add: rag_response_def)
    then show ?thesis by (intro disjI2 exI)
  next
    case (Inr request)
    show ?thesis
    proof (cases "chat_ok env Generate \<and> chat_ok env SaveAssistantMessage")
      case True
      with r Inr have "rag_messages env msgs store sid um = (Inr request, msgs @ [message_row sid ''user'' um (clock env SaveUserMessage)]) \<and>
            chat_ok env Generate \<and> chat_ok env SaveAssistantMessage \<and>
            rag_response env msgs store sid um =
              (Inr (llm env request),
               msgs @ [message_row sid ''user'' um (clock env SaveUserMessage)] @ [message_row sid ''assistant'' (llm env request)
                               (clock env SaveAssistantMessage)])"
        by (simp add: rag_response_def ainvoke_def add_message_eq assistant_valid)
      then show ?thesis by (intro disjI1 exI)
    next
      case False
      with r Inr have "\<exists>e. rag_response env msgs store sid um = (Inl e, msgs @ [message_row sid ''user'' um (clock env SaveUserMessage)])"
        by (auto simp: rag_response_def ainvoke_def add_message_eq)
      then show ?thesis by (rule disjI2)
    qed
  qed
qed

lemma rag_response_not_saved:
  "\<not> chat_ok env SaveUserMessage \<Longrightarrow>
   rag_response env msgs store sid um = (Inl (ExternalError ''add_message''), msgs)"
  by (simp add: rag_response_def rag_messages_not_saved)

lemma generate_response_not_saved:
  "\<not> chat_ok env SaveUserMessage \<Longrightarrow>
   generate_response env msgs store sid um =
     (Inr (if chat_ok env FallbackGenerate
           then llm env [SystemMessage ''You are a helpful assistant.'', HumanMessage um]
           else apology), msgs)"
  by (simp add: generate_response_def rag_response_not_saved fallback_response_eq)

lemma generate_response_saved:
  assumes saved: "chat_ok env SaveUserMessage"
  shows "(\<exists>request. rag_messages env msgs store sid um =
              (Inr request, msgs @ [message_row sid ''user'' um (clock env SaveUserMessage)]) \<and>
            fst (rag_response env msgs store sid um) = Inr (llm env request) \<and>
            generate_response env msgs store sid um =
              (Inr (llm env request),
               msgs @ [message_row sid ''user'' um (clock env SaveUserMessage)] @
                 [message_row sid ''assistant'' (llm env request)
                    (clock env SaveAssistantMessage)])) \<or>
         ((\<exists>e. fst (rag_response env msgs store sid um) = Inl e) \<and>
          generate_response env msgs store sid um =
            (Inr (if chat_ok env FallbackGenerate
                  then llm env [SystemMessage ''You are a helpful assistant.'', HumanMessage um]
                  else apology),
             msgs @ [message_row sid ''user'' um (clock env SaveUserMessage)]))"
  using rag_response_saved [OF saved, of msgs store sid um]
proof (elim disjE exE conjE)
  fix request
  assume "rag_messages env msgs store sid um =
            (Inr request, msgs @ [message_row sid ''user'' um (clock env SaveUserMessage)])"
    and "rag_response env msgs store sid um =
              (Inr (llm env request),
               msgs @ [message_row sid ''user'' um (clock env SaveUserMessage)] @
                 [message_row sid ''assistant'' (llm env request)
                    (clock env SaveAssistantMessage)])"
  then have "rag_messages env msgs store sid um =
              (Inr request, msgs @ [message_row sid ''user'' um (clock env SaveUserMessage)]) \<and>
            fst (rag_response env msgs store sid um) = Inr (llm env request) \<and>
            generate_response env msgs store sid um =
              (Inr (llm env request),
               msgs @ [message_row sid ''user'' um (clock env SaveUserMessage)] @
                 [message_row sid ''assistant'' (llm env request)
                    (clock env SaveAssistantMessage)])"
    by (simp add: generate_response_def)
  then show ?thesis by (intro disjI1 exI)
next
  fix e
  assume "rag_response env msgs store sid um =
            (Inl e, msgs @ [message_row sid ''user'' um (clock env SaveUserMessage)])"
  then have "(\<exists>e. fst (rag_response env msgs store sid um) = Inl e) \<and>
          generate_response env msgs store sid um =
            (Inr (if chat_ok env FallbackGenerate
                  then llm env [SystemMessage ''You are a helpful assistant.'', HumanMessage um]
                  else apology),
             msgs @ [message_row sid ''user'' um (clock env SaveUserMessage)])"
    by (simp add: generate_response_def fallback_response_eq)
  then show ?thesis by (rule disjI2)
qed

lemma apology_nonempty: "apology \<noteq> []"
  by (simp add: apology_def)

lemmas chat_eval =
  generate_response_def rag_response_def rag_messages_def add_message_eq message_row_def
  valid_role_def get_history_def select_recent_def to_entry_def similarity_search_results
  session_entries_def build_messages_def history_messages_def ainvoke_def
  fallback_response_eq Let_def

lemma rag_messages_request:
  assumes "chat_ok env SaveUserMessage" and "chat_ok env GetHistory"
  shows "\<exists>history context.
           get_history True (msgs @ [message_row sid ''user'' um (clock env SaveUserMessage)]) sid 10
             = Inr history \<and>
           rag_messages env msgs store sid um =
             (Inr (build_messages um context history),
              msgs @ [message_row sid ''user'' um (clock env SaveUserMessage)])"
  using assms
  by (auto simp: rag_messages_def add_message_eq user_valid get_history_def
      similarity_search_results Let_def)

lemma insort_key_snoc:
  "f x \<le> f u \<Longrightarrow> insort_key f x (zs @ [u]) = insort_key f x zs @ [u]"
  by (induction zs) simp_all

lemma foldr_insort_key_snoc:
  "\<forall>x \<in> set xs. f x \<le> f u \<Longrightarrow>
   foldr (insort_key f) xs (zs @ [u]) = foldr (insort_key f) xs zs @ [u]"
  by (induction xs) (simp_all add: insort_key_snoc)

lemma sort_key_snoc:
  assumes "\<forall>x \<in> set xs. f x \<le> f u"
  shows "sort_key f (xs @ [u]) = sort_key f xs @ [u]"
  using foldr_insort_key_snoc [OF assms, of "[]"] by (simp add: sort_key_def)

lemma history_messages_snoc_user:
  assumes "entry_role e = ''user''"
  shows "\<exists>earlier. history_messages (h @ [e]) = earlier @ [HumanMessage (entry_content e)]"
proof -
  have "drop (length (h @ [e]) - 6) (h @ [e]) = drop (length h - 5) h @ [e]"
    by simp
  with assms show ?thesis
    unfolding history_messages_def by simp
qed

lemma get_history_snoc:
  assumes "\<forall>m \<in> set msgs. msg_session_id m = sid \<longrightarrow> msg_created_at m \<le> now"
  shows "\<exists>h. get_history True (msgs @ [message_row sid role content now]) sid 10 =
           Inr (h @ [to_entry (message_row sid role content now)])"
proof -
  let ?u = "message_row sid role content now"
  let ?S = "session_messages msgs sid"
  have S: "session_messages (msgs @ [?u]) sid = ?S @ [?u]"
    by (simp add: session_messages_def message_row_def)
  from assms have "\<forall>x \<in> set ?S. msg_created_at x \<le> msg_created_at ?u"
    by (simp add: session_messages_def message_row_def)
  then have sorted: "sort_key msg_created_at (?S @ [?u]) = sort_key msg_created_at ?S @ [?u]"
    by (rule sort_key_snoc)
  have "rev (select_recent (msgs @ [?u]) sid 10) =
      drop (length ?S - 9) (sort_key msg_created_at ?S) @ [?u]"
    unfolding select_recent_rev S sorted by simp
  then have "get_history True (msgs @ [?u]) sid 10 =
      Inr (map to_entry (drop (length ?S - 9) (sort_key msg_created_at ?S)) @ [to_entry ?u])"
    by (simp add: get_history_def)
  then show ?thesis by (intro exI)
qed

text \<open>
  C3 fails on the code.  In a session whose history is a user turn \<open>one\<close> and an
  assistant turn \<open>two\<close>, with every collaborator up, the request built for the user
  message \<open>three\<close> is: the instruction, the two history turns, the user message as
  read back from the history, and the user message again.  The current user message is in
  the request twice, because the history is read after the message was appended and the
  last six entries are taken from it as they are.
\<close>

theorem generate_response_repeats_user_message:
  "rag_messages chat_env_ok [m1, m2] [] (UUID ''s'') ''three'' =
     (Inr [SystemMessage plain_system_content, HumanMessage ''one'', AIMessage ''two'',
           HumanMessage ''three'', HumanMessage ''three''],
      [m1, m2, m3]) \<and>
   generate_response chat_env_ok [m1, m2] [] (UUID ''s'') ''three'' =
     (Inr ''answer'', [m1, m2, m3, message_row (UUID ''s'') ''assistant'' ''answer'' 3])"
  by (simp add: chat_eval chat_env_ok_def m1_def m2_def m3_def)

text \<open>
  The same for every session: when the two reads go through and the clock has not run
  backwards, the request ends with the current user message twice.
\<close>

lemma rag_messages_repeats_user_message:
  assumes ok: "chat_ok env SaveUserMessage" "chat_ok env GetHistory"
    and clock: "\<forall>m \<in> set msgs. msg_session_id m = sid \<longrightarrow>
                  msg_created_at m \<le> clock env SaveUserMessage"
  shows "\<exists>earlier. rag_messages env msgs store sid um =
           (Inr (earlier @ [HumanMessage um, HumanMessage um]),
            msgs @ [message_row sid ''user'' um (clock env SaveUserMessage)])"
proof -
  let ?u = "message_row sid ''user'' um (clock env SaveUserMessage)"
  from get_history_snoc [OF clock, of "''user''" um] obtain h
    where h: "get_history True (msgs @ [?u]) sid 10 = Inr (h @ [to_entry ?u])"
    by (rule exE)
  have is_user: "entry_role (to_entry ?u) = ''user''" and said: "entry_content (to_entry ?u) = um"
    by (simp_all add: to_entry_def message_row_def)
  from history_messages_snoc_user [OF is_user, of h] said obtain earlier
    where e: "history_messages (h @ [to_entry ?u]) = earlier @ [HumanMessage um]"
    by auto
  from rag_messages_request [OF ok, of msgs sid um store] h obtain ctx
    where "rag_messages env msgs store sid um =
             (Inr (build_messages um ctx (h @ [to_entry ?u])), msgs @ [?u])"
    by auto
  with e have "rag_messages env msgs store sid um =
      (Inr ((SystemMessage (if ctx \<noteq> [] then context_system_content ctx
                            else plain_system_content) # earlier) @
            [HumanMessage um, HumanMessage um]), msgs @ [?u])"
    by (simp add: build_messages_def)
  then show ?thesis by (intro exI)
qed

lemma run_silent:
  "generate_response chat_env_silent [] [doc_python] (UUID ''A'') ''hi'' =
     (Inr [],
      [message_row (UUID ''A'') ''user'' ''hi'' 3, message_row (UUID ''A'') ''assistant'' [] 3])"
  by (simp add: chat_eval chat_env_silent_def chat_env_ok_def doc_python_def)

text \<open>
  C4 as stated fails: with the vector backend down and a model whose completion is the
  empty string, the chat request returns the empty string.
\<close>

theorem generate_response_empty_reply_counterexample:
  "chat_ok chat_env_silent SaveUserMessage \<and> \<not> chat_ok chat_env_silent SimilaritySearch \<and>
   generate_response chat_env_silent [] [doc_python] (UUID ''A'') ''hi'' =
     (Inr [],
      [message_row (UUID ''A'') ''user'' ''hi'' 3, message_row (UUID ''A'') ''assistant'' [] 3])"
  by (simp add: run_silent) (simp add: chat_env_silent_def)

text \<open>
  C4 (amended).  When the user message has been saved, then whatever the later steps do,
  \<open>generate_response\<close> returns a string and raises nothing, and the user message is
  recorded in the message table.  Either steps 2 to 7 all went through and the string is
  the model's completion for the request built; or one of them raised, and the string is
  the completion of one further call with the two-message request (the fixed instruction
  and the user's message, no history, no context), or the fixed apology when that call
  raises too.  The string is non-empty whenever the model's completions are.
\<close>

theorem generate_response_degrades:
  assumes saved: "chat_ok env SaveUserMessage"
  shows "\<exists>reply msgs'.
     generate_response env msgs store sid um = (Inr reply, msgs') \<and>
     prefix (msgs @ [message_row sid ''user'' um (clock env SaveUserMessage)]) msgs' \<and>
     (fst (rag_response env msgs store sid um) = Inr reply \<or>
      (\<exists>e. fst (rag_response env msgs store sid um) = Inl e) \<and>
      reply = (if chat_ok env FallbackGenerate
               then llm env [SystemMessage ''You are a helpful assistant.'', HumanMessage um]
               else apology)) \<and>
     ((\<forall>request. llm env request \<noteq> []) \<longrightarrow> reply \<noteq> [])"
  using generate_response_saved [OF saved, of msgs store sid um]
proof (elim disjE exE conjE)
  fix request
  let ?reply = "llm env request"
  let ?msgs' = "msgs @ [message_row sid ''user'' um (clock env SaveUserMessage)] @
                 [message_row sid ''assistant'' (llm env request) (clock env SaveAssistantMessage)]"
  assume full: "fst (rag_response env msgs store sid um) = Inr ?reply"
    and gen: "generate_response env msgs store sid um = (Inr ?reply, ?msgs')"
  have pre: "prefix (msgs @ [message_row sid ''user'' um (clock env SaveUserMessage)]) ?msgs'"
    by simp
  have nonempty: "(\<forall>request. llm env request \<noteq> []) \<longrightarrow> ?reply \<noteq> []" by simp
  from full have how: "fst (rag_response env msgs store sid um) = Inr ?reply \<or>
      (\<exists>e. fst (rag_response env msgs store sid um) = Inl e) \<and>
      ?reply = (if chat_ok env FallbackGenerate
               then llm env [SystemMessage ''You are a helpful assistant.'', HumanMessage um]
               else apology)" by (rule disjI1)
  from gen pre how nonempty show ?thesis
    by (intro exI [where x = "?reply"] exI [where x = "?msgs'"] conjI)
next
  fix e
  let ?reply = "if chat_ok env FallbackGenerate
               then llm env [SystemMessage ''You are a helpful assistant.'', HumanMessage um]
               else apology"
  let ?msgs' = "msgs @ [message_row sid ''user'' um (clock env SaveUserMessage)]"
  assume failed: "fst (rag_response env msgs store sid um) = Inl e"
    and gen: "generate_response env msgs store sid um = (Inr ?reply, ?msgs')"
  have pre: "prefix ?msgs' ?msgs'" by simp
  have nonempty: "(\<forall>request. llm env request \<noteq> []) \<longrightarrow> ?reply \<noteq> []"
    by (simp add: apology_nonempty)
  from failed have "\<exists>e. fst (rag_response env msgs store sid um) = Inl e" by (intro exI)
  then have how: "fst (rag_response env msgs store sid um) = Inr ?reply \<or>
      (\<exists>e. fst (rag_response env msgs store sid um) = Inl e) \<and> ?reply = ?reply"
    by simp
  from gen pre how nonempty show ?thesis
    by (intro exI [where x = "?reply"] exI [where x = "?msgs'"] conjI)
qed

lemma run_no_vectors:
  "generate_response chat_env_no_vectors [] [doc_python] (UUID ''A'') ''hi'' =
     (Inr ''answer'',
      [message_row (UUID ''A'') ''user'' ''hi'' 3,
       message_row (UUID ''A'') ''assistant'' ''answer'' 3])"
  by (simp add: chat_eval chat_env_no_vectors_def chat_env_ok_def doc_python_def)

text \<open>The vector backend down, everything else up: the completion is returned and both
  messages are recorded.\<close>

theorem generate_response_degrades_witness:
  "chat_ok chat_env_no_vectors SaveUserMessage \<and> \<not> chat_ok chat_env_no_vectors SimilaritySearch \<and>
   generate_response chat_env_no_vectors [] [doc_python] (UUID ''A'') ''hi'' =
     (Inr ''answer'',
      [message_row (UUID ''A'') ''user'' ''hi'' 3,
       message_row (UUID ''A'') ''assistant'' ''answer'' 3])"
proof -
  have saved: "chat_ok chat_env_no_vectors SaveUserMessage"
    by (simp add: chat_env_no_vectors_def)
  have down: "\<not> chat_ok chat_env_no_vectors SimilaritySearch"
    by (simp add: chat_env_no_vectors_def)
  from generate_response_degrades [OF saved, of "[]" "[doc_python]" "UUID ''A''" "''hi''"]
  obtain reply msgs' where
    "generate_response chat_env_no_vectors [] [doc_python] (UUID ''A'') ''hi'' = (Inr reply, msgs')"
    by (elim exE conjE)
  with saved down run_no_vectors show ?thesis by simp
qed

text \<open>
  C10 (totality of the chat entry point).  For every session, message, message table and
  collection, and whatever each collaborator does, \<open>generate_response\<close> returns a
  string and raises nothing.  When already the first step, saving the user message, fails,
  the answer is the fallback completion, or the apology when the fallback call fails too,
  and the message table is left as it was: the user message is not recorded.
\<close>

theorem generate_response_total:
  "(\<exists>reply msgs'. generate_response env msgs store sid um = (Inr reply, msgs')) \<and>
   (\<not> chat_ok env SaveUserMessage \<longrightarrow>
      generate_response env msgs store sid um =
        (Inr (if chat_ok env FallbackGenerate
              then llm env [SystemMessage ''You are a helpful assistant.'', HumanMessage um]
              else apology), msgs))"
proof (intro conjI impI)
  show "\<exists>reply msgs'. generate_response env msgs store sid um = (Inr reply, msgs')"
  proof (cases "chat_ok env SaveUserMessage")
    case False
    from generate_response_not_saved [OF False] show ?thesis by (intro exI)
  next
    case True
    from generate_response_saved [OF True, of msgs store sid um] show ?thesis
    proof (elim disjE exE conjE)
      fix request
      assume "generate_response env msgs store sid um =
              (Inr (llm env request),
               msgs @ [message_row sid ''user'' um (clock env SaveUserMessage)] @
                 [message_row sid ''assistant'' (llm env request)
                    (clock env SaveAssistantMessage)])"
      then show ?thesis by (intro exI)
    next
      assume "generate_response env msgs store sid um =
            (Inr (if chat_ok env FallbackGenerate
                  then llm env [SystemMessage ''You are a helpful assistant.'', HumanMessage um]
                  else apology),
             msgs @ [message_row sid ''user'' um (clock env SaveUserMessage)])"
      then show ?thesis by (intro exI)
    qed
  qed
next
  assume "\<not> chat_ok env SaveUserMessage"
  then show "generate_response env msgs store sid um =
        (Inr (if chat_ok env FallbackGenerate
              then llm env [SystemMessage ''You are a helpful assistant.'', HumanMessage um]
              else apology), msgs)"
    by (rule generate_response_not_saved)
qed

text \<open>Every collaborator down: the apology is returned and nothing is recorded.\<close>

theorem generate_response_total_witness:
  "generate_response chat_env_down [m1] [doc_python] (UUID ''s'') ''hi'' = (Inr apology, [m1])"
  using generate_response_total [of chat_env_down "[m1]" "[doc_python]" "UUID ''s''" "''hi''"]
  by (simp add: chat_env_down_def chat_env_ok_def)

end
